theory Spec2Isabelle
  imports Complex_Main
begin

section \<open>Python strings and built-ins\<close>

text \<open>
  A Python \<open>str\<close> is modelled as a \<open>string\<close> whose characters are the code points
  below 256. The string methods the program calls (\<open>strip\<close>, \<open>split\<close>, \<open>lower\<close>,
  \<open>startswith\<close>, \<open>endswith\<close>, \<open>isdigit\<close>) are written out for that range.
\<close>

definition ord :: "char \<Rightarrow> nat" where
  "ord c = of_char c"

definition isspace_char :: "char \<Rightarrow> bool" where
  "isspace_char c =
     (let n = ord c in (9 \<le> n \<and> n \<le> 13) \<or> (28 \<le> n \<and> n \<le> 32) \<or> n = 133 \<or> n = 160)"

definition isdigit_char :: "char \<Rightarrow> bool" where
  "isdigit_char c =
     (let n = ord c in (48 \<le> n \<and> n \<le> 57) \<or> n = 178 \<or> n = 179 \<or> n = 185)"

definition lower_char :: "char \<Rightarrow> char" where
  "lower_char c =
     (let n = ord c in
      if (65 \<le> n \<and> n \<le> 90) \<or> (192 \<le> n \<and> n \<le> 222 \<and> n \<noteq> 215)
      then char_of (n + 32) else c)"

definition py_strip :: "string \<Rightarrow> string" where
  "py_strip s = rev (dropWhile isspace_char (rev (dropWhile isspace_char s)))"

definition py_lower :: "string \<Rightarrow> string" where
  "py_lower s = map lower_char s"

definition py_startswith :: "string \<Rightarrow> string \<Rightarrow> bool" where
  "py_startswith s p = (take (length p) s = p)"

definition py_endswith :: "string \<Rightarrow> string \<Rightarrow> bool" where
  "py_endswith s p = (length p \<le> length s \<and> drop (length s - length p) s = p)"

definition py_isdigit :: "string \<Rightarrow> bool" where
  "py_isdigit s = (s \<noteq> [] \<and> list_all isdigit_char s)"

text \<open>\<open>s.split(c)\<close> for a one-character separator: never the empty list.\<close>

fun py_split :: "char \<Rightarrow> string \<Rightarrow> string list" where
  "py_split c [] = [[]]"
| "py_split c (x # xs) =
     (if x = c then [] # py_split c xs
      else (x # hd (py_split c xs)) # tl (py_split c xs))"

text \<open>\<open>str(n)\<close> for an integer: decimal digits, a minus sign for a negative one.\<close>

fun digits_of :: "nat \<Rightarrow> string" where
  "digits_of n =
     (if n < 10 then [''0123456789'' ! n]
      else digits_of (n div 10) @ [''0123456789'' ! (n mod 10)])"

declare digits_of.simps [simp del]

definition str_int :: "int \<Rightarrow> string" where
  "str_int i = (if i < 0 then CHR ''-'' # digits_of (nat (- i)) else digits_of (nat i))"

text \<open>
  The built-ins whose results depend on the interpreter (\<open>int(s)\<close>, \<open>float(s)\<close>, the
  arithmetic and comparison of floats, the conversion of an \<open>int\<close> operand to \<open>float\<close>,
  the format \<open>{x:.3f}\<close>) are parameters: \<open>'f\<close> is the type of float values. \<open>None\<close>
  stands for the exception the built-in raises (\<open>ValueError\<close> for \<open>int\<close> and \<open>float\<close>,
  \<open>OverflowError\<close> for the conversion). \<open>float_lit\<close> gives the value of a float literal
  of the source; \<open>flt a b\<close> is \<open>a < b\<close> (the same as \<open>b > a\<close>) and \<open>fle a b\<close> is \<open>a <= b\<close>.
\<close>

record 'f pyops =
  py_int :: "string \<Rightarrow> int option"
  py_float :: "string \<Rightarrow> 'f option"
  float_of_int :: "int \<Rightarrow> 'f option"
  float_lit :: "string \<Rightarrow> 'f"
  fadd :: "'f \<Rightarrow> 'f \<Rightarrow> 'f"
  fsub :: "'f \<Rightarrow> 'f \<Rightarrow> 'f"
  flt :: "'f \<Rightarrow> 'f \<Rightarrow> bool"
  fle :: "'f \<Rightarrow> 'f \<Rightarrow> bool"
  fmt3 :: "'f \<Rightarrow> string"

text \<open>
  Exceptions as values. The first group are the errors the program raises itself
  (\<open>ValueError\<close> with the time-format hint, \<open>RuntimeError\<close> with one of its messages);
  the second group are exceptions of built-ins and of the external collaborators.
\<close>

datatype error =
    TimeFormatError
  | StartTimeError error
  | EndTimeError error
  | InvalidRange
  | ToolMissing
  | TrimFailed
  | DownloadError
  | FirstFrameUnreadable
  | RegionSpecError
  | InvalidFormat
  | PyValueError
  | PyOverflowError
  | PyKeyError
  | PyIndexError
  | PyTypeError
  | ExternalError string

text \<open>A \<open>Path\<close> is modelled by its text.\<close>

type_synonym path = string

text \<open>What exists on disk: the size of the file (or directory) at a path.\<close>

type_synonym filesys = "path \<Rightarrow> nat option"

section \<open>downloader.py\<close>

text \<open>The metadata the download engine returns: JSON-like values.\<close>

datatype pyval =
    PNone
  | PBool bool
  | PInt int
  | PStr string
  | PList "pyval list"
  | PDict "(string \<times> pyval) list"

fun truthy :: "pyval \<Rightarrow> bool" where
  "truthy PNone = False"
| "truthy (PBool b) = b"
| "truthy (PInt n) = (n \<noteq> 0)"
| "truthy (PStr s) = (s \<noteq> [])"
| "truthy (PList xs) = (xs \<noteq> [])"
| "truthy (PDict d) = (d \<noteq> [])"

fun is_dict :: "pyval \<Rightarrow> bool" where
  "is_dict (PDict d) = True"
| "is_dict _ = False"

text \<open>\<open>v[key]\<close> for a string key, \<open>v[0]\<close>, \<open>d.get(key)\<close> and \<open>Path(v)\<close>.\<close>

fun getitem_str :: "pyval \<Rightarrow> string \<Rightarrow> error + pyval" where
  "getitem_str (PDict d) k = (case map_of d k of Some v \<Rightarrow> Inr v | None \<Rightarrow> Inl PyKeyError)"
| "getitem_str _ k = Inl PyTypeError"

fun getitem_0 :: "pyval \<Rightarrow> error + pyval" where
  "getitem_0 (PList []) = Inl PyIndexError"
| "getitem_0 (PList (x # xs)) = Inr x"
| "getitem_0 (PStr []) = Inl PyIndexError"
| "getitem_0 (PStr (c # cs)) = Inr (PStr [c])"
| "getitem_0 (PDict d) = Inl PyKeyError"
| "getitem_0 _ = Inl PyTypeError"

fun dict_get :: "pyval \<Rightarrow> string \<Rightarrow> pyval" where
  "dict_get (PDict d) k = (case map_of d k of Some v \<Rightarrow> v | None \<Rightarrow> PNone)"
| "dict_get _ k = PNone"

fun Path_of :: "pyval \<Rightarrow> error + path" where
  "Path_of (PStr s) = Inr s"
| "Path_of _ = Inl PyTypeError"

text \<open>The options handed to the engine; \<open>OHook\<close> is the progress callback.\<close>

datatype optval =
    ONone
  | OStr string
  | OBool bool
  | OInt int
  | OStrs "string list"
  | OHook

text \<open>
  The download engine and the operating system, as far as \<open>download_video\<close> calls them.
  Each call that can raise returns a sum; each call that writes to disk returns the new
  file system.
\<close>

record engine =
  mkdir_p :: "path \<Rightarrow> filesys \<Rightarrow> error + filesys"
  os_path_join :: "string \<Rightarrow> string \<Rightarrow> string"
  extract_info :: "(string \<times> optval) list \<Rightarrow> string \<Rightarrow> filesys \<Rightarrow> (error + pyval) \<times> filesys"
  prepare_filename :: "pyval \<Rightarrow> error + string"

record dl_args =
  url :: string
  output_dir :: path
  cookies :: "path option"
  quality :: string
  proxy :: "string option"
  playlist :: bool
  subtitles :: bool
  ffmpeg_location :: "path option"

text \<open>Lines 26-31: the height bound, absent unless the quality is digits followed by p.\<close>

definition max_height_of :: "'f pyops \<Rightarrow> string \<Rightarrow> int option" where
  "max_height_of ops q =
     (if q \<noteq> [] \<and> py_endswith q ''p'' \<and> py_isdigit (butlast q)
      then py_int ops (butlast q)
      else None)"

definition bounded_format :: "int \<Rightarrow> string" where
  "bounded_format h =
     ''bv*[height<=?'' @ str_int h @ '']+ba/b[height<=?'' @ str_int h @ '']''"

text \<open>Lines 32-35: \<open>if max_height\<close> is false for an absent bound and for 0.\<close>

definition format_selector :: "'f pyops \<Rightarrow> string \<Rightarrow> string" where
  "format_selector ops q =
     (case max_height_of ops q of
        None \<Rightarrow> ''bv*+ba/b''
      | Some h \<Rightarrow> if h \<noteq> 0 then bounded_format h else ''bv*+ba/b'')"

definition ydl_opts :: "'f pyops \<Rightarrow> engine \<Rightarrow> dl_args \<Rightarrow> (string \<times> optval) list" where
  "ydl_opts ops eng a =
     [(''outtmpl'', OStr (os_path_join eng (output_dir a) ''%(title).200s [%(id)s].%(ext)s'')),
      (''format'', OStr (format_selector ops (quality a))),
      (''merge_output_format'', OStr ''mp4''),
      (''concurrent_fragment_downloads'', OInt 4),
      (''noplaylist'', OBool (\<not> playlist a)),
      (''ignoreerrors'', OBool False),
      (''retries'', OInt 10),
      (''fragment_retries'', OInt 10),
      (''continuedl'', OBool True),
      (''nopart'', OBool False),
      (''progress_hooks'', OHook),
      (''ffmpeg_location'', (case ffmpeg_location a of None \<Rightarrow> ONone | Some p \<Rightarrow> OStr p)),
      (''proxy'', (case proxy a of None \<Rightarrow> ONone | Some p \<Rightarrow> OStr p)),
      (''cookiefile'', (case cookies a of None \<Rightarrow> ONone | Some p \<Rightarrow> OStr p)),
      (''writesubtitles'', OBool (subtitles a)),
      (''embedsubtitles'', OBool (subtitles a)),
      (''subtitleslangs'', OStrs (if subtitles a then [''zh-Hans'', ''zh'', ''en''] else []))]"

text \<open>Lines 68-70 and 72-74: the path of one entry (or of the single video).\<close>

definition entry_path :: "engine \<Rightarrow> pyval \<Rightarrow> error + path" where
  "entry_path eng entry =
     (if is_dict entry \<and> truthy (dict_get entry ''requested_downloads'')
      then (case getitem_str entry ''requested_downloads'' of
              Inl e \<Rightarrow> Inl e
            | Inr rd \<Rightarrow>
                (case getitem_0 rd of
                   Inl e \<Rightarrow> Inl e
                 | Inr r0 \<Rightarrow>
                     (case getitem_str r0 ''filepath'' of
                        Inl e \<Rightarrow> Inl e
                      | Inr fp \<Rightarrow> Path_of fp)))
      else (case prepare_filename eng entry of
              Inl e \<Rightarrow> Inl e
            | Inr s \<Rightarrow> Inr s))"

text \<open>Lines 64-75: the path from the metadata.\<close>

definition resolve_path :: "engine \<Rightarrow> pyval \<Rightarrow> error + path" where
  "resolve_path eng info =
     (case info of
        PDict d \<Rightarrow>
          (case map_of d ''entries'' of
             Some es \<Rightarrow>
               if truthy es
               then (case getitem_0 es of Inl e \<Rightarrow> Inl e | Inr entry \<Rightarrow> entry_path eng entry)
               else entry_path eng info
           | None \<Rightarrow> entry_path eng info)
      | _ \<Rightarrow> Inl DownloadError)"

definition download_video ::
  "'f pyops \<Rightarrow> engine \<Rightarrow> dl_args \<Rightarrow> filesys \<Rightarrow> (error + path) \<times> filesys" where
  "download_video ops eng a fs =
     (case mkdir_p eng (output_dir a) fs of
        Inl e \<Rightarrow> (Inl e, fs)
      | Inr fs1 \<Rightarrow>
          (case extract_info eng
                  (filter (\<lambda>kv. snd kv \<noteq> ONone) (ydl_opts ops eng a)) (url a) fs1 of
             (Inl e, fs2) \<Rightarrow> (Inl e, fs2)
           | (Inr info, fs2) \<Rightarrow> (resolve_path eng info, fs2)))"


section \<open>video_to_pdf_gui.py\<close>

subsection \<open>The time parser\<close>

text \<open>\<open>n + x\<close> for an \<open>int\<close> n and a \<open>float\<close> x: n is converted first, which can overflow.\<close>

definition int_add_float :: "'f pyops \<Rightarrow> int \<Rightarrow> 'f \<Rightarrow> error + 'f" where
  "int_add_float ops n x =
     (case float_of_int ops n of
        None \<Rightarrow> Inl PyOverflowError
      | Some f \<Rightarrow> Inr (fadd ops f x))"

text \<open>Lines 81-93, the body of the \<open>try\<close>.\<close>

definition parse_time_body :: "'f pyops \<Rightarrow> string \<Rightarrow> error + 'f" where
  "parse_time_body ops s =
     (let parts = py_split CHR '':'' s in
      if length parts = 1 then
        (case py_float ops (parts ! 0) of
           None \<Rightarrow> Inl PyValueError
         | Some x \<Rightarrow> Inr x)
      else if length parts = 2 then
        (case py_int ops (parts ! 0) of
           None \<Rightarrow> Inl PyValueError
         | Some m \<Rightarrow>
             (case py_float ops (parts ! 1) of
                None \<Rightarrow> Inl PyValueError
              | Some sec \<Rightarrow> int_add_float ops (m * 60) sec))
      else if length parts = 3 then
        (case py_int ops (parts ! 0) of
           None \<Rightarrow> Inl PyValueError
         | Some h \<Rightarrow>
             (case py_int ops (parts ! 1) of
                None \<Rightarrow> Inl PyValueError
              | Some m \<Rightarrow>
                  (case py_float ops (parts ! 2) of
                     None \<Rightarrow> Inl PyValueError
                   | Some sec \<Rightarrow> int_add_float ops (h * 3600 + m * 60) sec)))
      else Inl InvalidFormat)"

text \<open>
  Lines 76-95. Whatever the body raises is caught and replaced by the \<open>ValueError\<close> that
  carries the format hint, here \<open>TimeFormatError\<close>.
\<close>

definition parse_time_to_seconds :: "'f pyops \<Rightarrow> string \<Rightarrow> error + 'f option" where
  "parse_time_to_seconds ops text_in =
     (let s = py_strip text_in in
      if s = [] then Inr None
      else (case parse_time_body ops s of
              Inl e \<Rightarrow> Inl TimeFormatError
            | Inr x \<Rightarrow> Inr (Some x)))"

subsection \<open>Events, the world and the host\<close>

type_synonym rect = "int \<times> int \<times> int \<times> int"

record 'f extract_args =
  video_path :: path
  output_pdf :: path
  frames_dir :: path
  sample_seconds :: 'f
  threshold :: int
  crop_region :: "rect option"
  scale_width :: "int option"
  a4 :: bool
  max_pages :: "int option"
  auto_trim :: bool
  auto_trim_ratio :: 'f
  auto_trim_pad :: int
  auto_trim_sides :: string
  auto_crop :: bool
  auto_crop_pad :: int
  auto_crop_min_area_ratio :: 'f

text \<open>
  What a run does that can be observed: the lines it prints, the lines it puts on the
  log queue, the calls it makes to its collaborators, and what it does to the window.
\<close>

datatype 'f event =
    PrintDownloading path
  | PrintDownloaded path
  | PrintTrimStart "'f option" "'f option"
  | PrintTrimDone path
  | LogResolution int int
  | LogRoiPrompt
  | LogRoiSelected int int int int
  | LogRoiCancelled
  | LogRoiFailed error
  | LogDone
  | LogError error
  | CallDownload string path
  | CallTrim path path "'f option" "'f option"
  | CallSubprocess "string list"
  | CallExtract "'f extract_args"
  | ShowError error
  | RunButtonNormal

record 'f world =
  files :: filesys
  trace :: "'f event list"

definition emit :: "'f event \<Rightarrow> 'f world \<Rightarrow> 'f world" where
  "emit ev w = w\<lparr>trace := trace w @ [ev]\<rparr>"

text \<open>What \<open>cv2.VideoCapture\<close> reports to the probe.\<close>

record capture =
  is_opened :: bool
  decl_width :: int
  decl_height :: int
  frame_shape :: "(int \<times> int) option"

text \<open>
  The machine the program runs on, the user in front of it and the collaborators it
  calls. \<open>cv2_probe\<close>, \<open>read_first_frame\<close> and \<open>select_roi\<close> return \<open>Inl\<close> when a call
  into cv2 raises; \<open>select_roi\<close> is what the user draws. \<open>parse_crop\<close> and
  \<open>extract_frames_to_pdf\<close> belong to the module \<open>video_to_pdf_phash\<close>.
\<close>

record 'f host =
  which_ffmpeg :: "string option"
  run_tool :: "string list \<Rightarrow> filesys \<Rightarrow> int \<times> filesys"
  gettempdir :: path
  path_parent :: "path \<Rightarrow> path"
  path_stem :: "path \<Rightarrow> string"
  path_join :: "path \<Rightarrow> string \<Rightarrow> path"
  path_with_suffix :: "path \<Rightarrow> string \<Rightarrow> error + path"
  mkdirs :: "path \<Rightarrow> filesys \<Rightarrow> error + filesys"
  download_engine :: engine
  cv2_probe :: "path \<Rightarrow> filesys \<Rightarrow> error + capture"
  read_first_frame :: "path \<Rightarrow> filesys \<Rightarrow> error + bool"
  select_roi :: "path \<Rightarrow> error + rect"
  parse_crop :: "string option \<Rightarrow> error + rect option"
  extract_frames_to_pdf :: "'f extract_args \<Rightarrow> filesys \<Rightarrow> (error + unit) \<times> filesys"

text \<open>The values of the window's variables, as \<open>_build_ui\<close> declares them.\<close>

record config =
  input_var :: string
  output_var :: string
  outdir_var :: string
  dldir_var :: string
  start_time_var :: string
  end_time_var :: string
  sample_var :: string
  threshold_var :: string
  crop_var :: string
  scale_width_var :: string
  max_pages_var :: string
  a4_var :: bool
  auto_trim_var :: bool
  auto_trim_ratio_var :: string
  auto_trim_pad_var :: string
  auto_trim_sides_var :: string
  auto_crop_var :: bool
  auto_crop_pad_var :: string
  auto_crop_min_area_var :: string
  manual_select_var :: bool

text \<open>Sequencing of steps that can raise: the first error ends the sequence.\<close>

definition sbind ::
  "('w \<Rightarrow> (error + 'a) \<times> 'w) \<Rightarrow> ('a \<Rightarrow> 'w \<Rightarrow> (error + 'b) \<times> 'w) \<Rightarrow> 'w \<Rightarrow> (error + 'b) \<times> 'w" where
  "sbind m f w = (case m w of (Inl e, w') \<Rightarrow> (Inl e, w') | (Inr x, w') \<Rightarrow> f x w')"

definition lift_pure :: "error + 'a \<Rightarrow> 'w \<Rightarrow> (error + 'a) \<times> 'w" where
  "lift_pure r w = (r, w)"

subsection \<open>The trimmer\<close>

definition path_exists :: "filesys \<Rightarrow> path \<Rightarrow> bool" where
  "path_exists fs p = (fs p \<noteq> None)"

definition st_size :: "filesys \<Rightarrow> path \<Rightarrow> nat" where
  "st_size fs p = (case fs p of None \<Rightarrow> 0 | Some n \<Rightarrow> n)"

text \<open>Lines 105-113: the arguments both attempts share.\<close>

definition trim_args ::
  "'f pyops \<Rightarrow> string \<Rightarrow> path \<Rightarrow> 'f option \<Rightarrow> 'f option \<Rightarrow> string list" where
  "trim_args ops ffmpeg src start_s end_s =
     (let duration =
            (case start_s of
               None \<Rightarrow> None
             | Some s \<Rightarrow>
                 (case end_s of
                    None \<Rightarrow> None
                  | Some e \<Rightarrow> if flt ops s e then Some (fsub ops e s) else None))
      in [ffmpeg, ''-y'']
         @ (case start_s of None \<Rightarrow> [] | Some s \<Rightarrow> [''-ss'', fmt3 ops s])
         @ [''-i'', src]
         @ (case duration of None \<Rightarrow> [] | Some d \<Rightarrow> [''-t'', fmt3 ops d]))"

definition fast_flags :: "path \<Rightarrow> string list" where
  "fast_flags dst = [''-c'', ''copy'', dst]"

definition slow_flags :: "path \<Rightarrow> string list" where
  "slow_flags dst =
     [''-c:v'', ''libx264'', ''-preset'', ''fast'', ''-crf'', ''23'',
      ''-c:a'', ''aac'', ''-b:a'', ''192k'', dst]"

text \<open>
  \<open>subprocess.run\<close>: the tool runs, the disk changes, the exit code comes back. A process
  that cannot be started at all is outside the model.
\<close>

definition run_subprocess :: "'f host \<Rightarrow> string list \<Rightarrow> 'f world \<Rightarrow> int \<times> 'f world" where
  "run_subprocess h args w =
     (case run_tool h args (files w) of
        (rc, fs') \<Rightarrow> (rc, emit (CallSubprocess args) (w\<lparr>files := fs'\<rparr>)))"

text \<open>Lines 100-123.\<close>

definition trim_video_with_ffmpeg ::
  "'f pyops \<Rightarrow> 'f host \<Rightarrow> path \<Rightarrow> path \<Rightarrow> 'f option \<Rightarrow> 'f option \<Rightarrow> 'f world
     \<Rightarrow> (error + unit) \<times> 'f world" where
  "trim_video_with_ffmpeg ops h src dst start_s end_s w =
     (case which_ffmpeg h of
        None \<Rightarrow> (Inl ToolMissing, w)
      | Some ffmpeg \<Rightarrow>
          if ffmpeg = [] then (Inl ToolMissing, w)
          else
            (let args = trim_args ops ffmpeg src start_s end_s in
             case run_subprocess h (args @ fast_flags dst) w of
               (rc, w1) \<Rightarrow>
                 if rc = 0 \<and> path_exists (files w1) dst \<and> 0 < st_size (files w1) dst
                 then (Inr (), w1)
                 else
                   (case run_subprocess h (args @ slow_flags dst) w1 of
                      (rc2, w2) \<Rightarrow>
                        if rc2 \<noteq> 0 \<or> \<not> path_exists (files w2) dst \<or> st_size (files w2) dst = 0
                        then (Inl TrimFailed, w2)
                        else (Inr (), w2))))"


subsection \<open>The stages of a run\<close>

text \<open>Line 309.\<close>

definition is_url :: "string \<Rightarrow> bool" where
  "is_url input_path =
     (py_startswith (py_lower input_path) ''http://'' \<or>
      py_startswith (py_lower input_path) ''https://'')"

text \<open>
  Lines 312-341: the download, for a network address only. The progress callback of
  lines 317-331 only puts lines on the log queue while the engine runs and swallows its
  own exceptions; it is left out.
\<close>

definition resolve_input ::
  "'f pyops \<Rightarrow> 'f host \<Rightarrow> config \<Rightarrow> string \<Rightarrow> 'f world \<Rightarrow> (error + path) \<times> 'f world" where
  "resolve_input ops h cfg input_path w =
     (if is_url input_path then
        (let dl_dir_str = py_strip (dldir_var cfg);
             dl_dir = (if dl_dir_str \<noteq> [] then dl_dir_str
                       else path_join h (gettempdir h) ''video2pdf_downloads'');
             w1 = emit (CallDownload input_path dl_dir) (emit (PrintDownloading dl_dir) w)
         in case download_video ops (download_engine h)
                   \<lparr>url = input_path, output_dir = dl_dir, cookies = None, quality = ''best'',
                    proxy = None, playlist = False, subtitles = False, ffmpeg_location = None\<rparr>
                   (files w1) of
              (Inl e, fs') \<Rightarrow> (Inl e, w1\<lparr>files := fs'\<rparr>)
            | (Inr p, fs') \<Rightarrow> (Inr p, emit (PrintDownloaded p) (w1\<lparr>files := fs'\<rparr>)))
      else (Inr input_path, w))"

text \<open>Lines 344-353.\<close>

definition parse_bounds :: "'f pyops \<Rightarrow> config \<Rightarrow> error + ('f option \<times> 'f option)" where
  "parse_bounds ops cfg =
     (case parse_time_to_seconds ops (start_time_var cfg) of
        Inl e \<Rightarrow> Inl (StartTimeError e)
      | Inr start_s \<Rightarrow>
          (case parse_time_to_seconds ops (end_time_var cfg) of
             Inl e \<Rightarrow> Inl (EndTimeError e)
           | Inr end_s \<Rightarrow> Inr (start_s, end_s)))"

text \<open>The test of line 356.\<close>

definition range_invalid :: "'f pyops \<Rightarrow> 'f option \<Rightarrow> 'f option \<Rightarrow> bool" where
  "range_invalid ops start_s end_s =
     (case end_s of
        None \<Rightarrow> False
      | Some e \<Rightarrow> (case start_s of None \<Rightarrow> False | Some s \<Rightarrow> fle ops e s))"

text \<open>Lines 355-364.\<close>

definition trim_stage ::
  "'f pyops \<Rightarrow> 'f host \<Rightarrow> path \<Rightarrow> 'f option \<Rightarrow> 'f option \<Rightarrow> 'f world
     \<Rightarrow> (error + path) \<times> 'f world" where
  "trim_stage ops h input_p start_s end_s w =
     (if start_s \<noteq> None \<or> end_s \<noteq> None then
        if range_invalid ops start_s end_s then (Inl InvalidRange, w)
        else
          (let clip_dir =
                 path_join h
                   (if path_exists (files w) (path_parent h input_p) then path_parent h input_p
                    else gettempdir h)
                   ''video2pdf_segments''
           in case mkdirs h clip_dir (files w) of
                Inl e \<Rightarrow> (Inl e, w)
              | Inr fs1 \<Rightarrow>
                  (let clip_p = path_join h clip_dir (path_stem h input_p @ ''.clip.mp4'');
                       w1 = emit (CallTrim input_p clip_p start_s end_s)
                              (emit (PrintTrimStart start_s end_s) (w\<lparr>files := fs1\<rparr>))
                   in case trim_video_with_ffmpeg ops h input_p clip_p start_s end_s w1 of
                        (Inl e, w2) \<Rightarrow> (Inl e, w2)
                      | (Inr u, w2) \<Rightarrow> (Inr clip_p, emit (PrintTrimDone clip_p) w2)))
      else (Inr input_p, w))"

text \<open>Lines 368-378, the body of the \<open>try\<close> around the probe.\<close>

definition probe_body :: "'f host \<Rightarrow> path \<Rightarrow> 'f world \<Rightarrow> (error + unit) \<times> 'f world" where
  "probe_body h input_p w =
     (case cv2_probe h input_p (files w) of
        Inl e \<Rightarrow> (Inl e, w)
      | Inr cap \<Rightarrow>
          if is_opened cap then
            (let wh =
                   (if decl_width cap = 0 \<or> decl_height cap = 0 then
                      (case frame_shape cap of
                         None \<Rightarrow> (decl_width cap, decl_height cap)
                       | Some (fh, fw) \<Rightarrow> (fw, fh))
                    else (decl_width cap, decl_height cap))
             in if fst wh \<noteq> 0 \<and> snd wh \<noteq> 0
                then (Inr (), emit (LogResolution (fst wh) (snd wh)) w)
                else (Inr (), w))
          else (Inr (), w))"

text \<open>Lines 367-380: \<open>except Exception: pass\<close>.\<close>

definition probe_stage :: "'f host \<Rightarrow> path \<Rightarrow> 'f world \<Rightarrow> (error + unit) \<times> 'f world" where
  "probe_stage h input_p w =
     (case probe_body h input_p w of
        (Inl e, w') \<Rightarrow> (Inr (), w')
      | (Inr u, w') \<Rightarrow> (Inr (), w'))"

text \<open>Lines 382-385.\<close>

definition output_paths :: "'f host \<Rightarrow> config \<Rightarrow> path \<Rightarrow> error + (path \<times> path)" where
  "output_paths h cfg input_p =
     (case (if py_strip (output_var cfg) \<noteq> [] then Inr (py_strip (output_var cfg))
            else path_with_suffix h input_p ''.pdf'') of
        Inl e \<Rightarrow> Inl e
      | Inr out_pdf \<Rightarrow>
          Inr (out_pdf,
               if py_strip (outdir_var cfg) \<noteq> [] then py_strip (outdir_var cfg)
               else path_join h (path_parent h input_p) ''slides_phash''))"

text \<open>Lines 391-404, the body of the \<open>try\<close> around the selection by hand.\<close>

definition manual_body :: "'f host \<Rightarrow> path \<Rightarrow> 'f world \<Rightarrow> (error + rect option) \<times> 'f world" where
  "manual_body h input_p w =
     (case read_first_frame h input_p (files w) of
        Inl e \<Rightarrow> (Inl e, w)
      | Inr ok \<Rightarrow>
          if \<not> ok then (Inl FirstFrameUnreadable, w)
          else
            (case select_roi h input_p of
               Inl e \<Rightarrow> (Inl e, emit LogRoiPrompt w)
             | Inr (x, y, rw, rh) \<Rightarrow>
                 if 0 < rw \<and> 0 < rh
                 then (Inr (Some (x, y, rw, rh)),
                       emit (LogRoiSelected x y rw rh) (emit LogRoiPrompt w))
                 else (Inr None, emit LogRoiCancelled (emit LogRoiPrompt w))))"

text \<open>Lines 388-406: the exception of the body is logged and goes no further.\<close>

definition manual_stage ::
  "'f host \<Rightarrow> config \<Rightarrow> path \<Rightarrow> 'f world \<Rightarrow> (error + rect option) \<times> 'f world" where
  "manual_stage h cfg input_p w =
     (if manual_select_var cfg then
        (case manual_body h input_p w of
           (Inl e, w') \<Rightarrow> (Inr None, emit (LogRoiFailed e) w')
         | (Inr r, w') \<Rightarrow> (Inr r, w'))
      else (Inr None, w))"

text \<open>Lines 408-425: the options, each with its default.\<close>

definition ebind :: "error + 'a \<Rightarrow> ('a \<Rightarrow> error + 'b) \<Rightarrow> error + 'b" where
  "ebind r f = (case r of Inl e \<Rightarrow> Inl e | Inr x \<Rightarrow> f x)"

definition float_or :: "'f pyops \<Rightarrow> string \<Rightarrow> string \<Rightarrow> error + 'f" where
  "float_or ops s dflt =
     (if s \<noteq> [] then (case py_float ops s of None \<Rightarrow> Inl PyValueError | Some x \<Rightarrow> Inr x)
      else Inr (float_lit ops dflt))"

definition int_or :: "'f pyops \<Rightarrow> string \<Rightarrow> int \<Rightarrow> error + int" where
  "int_or ops s dflt =
     (if s \<noteq> [] then (case py_int ops s of None \<Rightarrow> Inl PyValueError | Some n \<Rightarrow> Inr n)
      else Inr dflt)"

definition int_if_given :: "'f pyops \<Rightarrow> string \<Rightarrow> error + int option" where
  "int_if_given ops s =
     (if py_strip s \<noteq> [] then
        (case py_int ops s of None \<Rightarrow> Inl PyValueError | Some n \<Rightarrow> Inr (Some n))
      else Inr None)"

definition extract_options ::
  "'f pyops \<Rightarrow> 'f host \<Rightarrow> config \<Rightarrow> path \<Rightarrow> path \<Rightarrow> path \<Rightarrow> rect option
     \<Rightarrow> error + 'f extract_args" where
  "extract_options ops h cfg input_p out_pdf out_dir manual_crop =
     ebind (float_or ops (sample_var cfg) ''0.5'') (\<lambda>sample.
     ebind (int_or ops (threshold_var cfg) 10) (\<lambda>thr.
     ebind (parse_crop h (if py_strip (crop_var cfg) \<noteq> [] then Some (py_strip (crop_var cfg))
                          else None)) (\<lambda>crop.
     ebind (int_if_given ops (scale_width_var cfg)) (\<lambda>sw.
     ebind (int_if_given ops (max_pages_var cfg)) (\<lambda>mp.
     ebind (float_or ops (auto_trim_ratio_var cfg) ''0.98'') (\<lambda>ratio.
     ebind (int_or ops (auto_trim_pad_var cfg) 6) (\<lambda>pad.
     ebind (int_or ops (auto_crop_pad_var cfg) 6) (\<lambda>ac_pad.
     ebind (float_or ops (auto_crop_min_area_var cfg) ''0.05'') (\<lambda>area.
     Inr \<lparr>video_path = input_p,
          output_pdf = out_pdf,
          frames_dir = out_dir,
          sample_seconds = sample,
          threshold = thr,
          crop_region = (case manual_crop of None \<Rightarrow> crop | Some r \<Rightarrow> Some r),
          scale_width = sw,
          a4 = a4_var cfg,
          max_pages = mp,
          auto_trim = auto_trim_var cfg,
          auto_trim_ratio = ratio,
          auto_trim_pad = pad,
          auto_trim_sides =
            (if auto_trim_sides_var cfg \<noteq> [] then auto_trim_sides_var cfg else ''tb''),
          auto_crop = (if manual_crop \<noteq> None then False else auto_crop_var cfg),
          auto_crop_pad = ac_pad,
          auto_crop_min_area_ratio = area\<rparr>)))))))))"

text \<open>Lines 427-447: the extraction, then the last log line.\<close>

definition extract_stage ::
  "'f host \<Rightarrow> 'f extract_args \<Rightarrow> 'f world \<Rightarrow> (error + unit) \<times> 'f world" where
  "extract_stage h args w =
     (case extract_frames_to_pdf h args (files w) of
        (Inl e, fs') \<Rightarrow> (Inl e, (emit (CallExtract args) w)\<lparr>files := fs'\<rparr>)
      | (Inr u, fs') \<Rightarrow> (Inr (), emit LogDone ((emit (CallExtract args) w)\<lparr>files := fs'\<rparr>)))"

text \<open>Lines 308-364: from the input to the video the later stages read.\<close>

definition acquire ::
  "'f pyops \<Rightarrow> 'f host \<Rightarrow> config \<Rightarrow> string \<Rightarrow> 'f world \<Rightarrow> (error + path) \<times> 'f world" where
  "acquire ops h cfg input_path =
     sbind (resolve_input ops h cfg input_path) (\<lambda>input_p.
     sbind (lift_pure (parse_bounds ops cfg)) (\<lambda>bounds.
     trim_stage ops h input_p (fst bounds) (snd bounds)))"

text \<open>Lines 366-447: the probe, the region, the options and the extraction.\<close>

definition finish ::
  "'f pyops \<Rightarrow> 'f host \<Rightarrow> config \<Rightarrow> path \<Rightarrow> 'f world \<Rightarrow> (error + unit) \<times> 'f world" where
  "finish ops h cfg input_p =
     sbind (probe_stage h input_p) (\<lambda>u.
     sbind (lift_pure (output_paths h cfg input_p)) (\<lambda>outs.
     sbind (manual_stage h cfg input_p) (\<lambda>manual_crop.
     sbind (lift_pure (extract_options ops h cfg input_p (fst outs) (snd outs) manual_crop))
       (\<lambda>args. extract_stage h args))))"

text \<open>Lines 307-447, the body of the \<open>try\<close>.\<close>

definition work_body ::
  "'f pyops \<Rightarrow> 'f host \<Rightarrow> config \<Rightarrow> string \<Rightarrow> 'f world \<Rightarrow> (error + unit) \<times> 'f world" where
  "work_body ops h cfg input_path =
     sbind (acquire ops h cfg input_path) (\<lambda>input_p. finish ops h cfg input_p)"

text \<open>Lines 304-452: \<open>work\<close>, with its \<open>except\<close> and its \<open>finally\<close>.\<close>

definition work ::
  "'f pyops \<Rightarrow> 'f host \<Rightarrow> config \<Rightarrow> string \<Rightarrow> 'f world \<Rightarrow> (error + unit) \<times> 'f world" where
  "work ops h cfg input_path w =
     (case work_body ops h cfg input_path w of
        (Inl e, w') \<Rightarrow> (Inl e, emit RunButtonNormal (emit (ShowError e) (emit (LogError e) w')))
      | (Inr u, w') \<Rightarrow> (Inr (), emit RunButtonNormal w'))"

subsection \<open>The window: the two check boxes and the run button\<close>

text \<open>Lines 262-276.\<close>

definition on_toggle_auto_crop :: "config \<Rightarrow> config" where
  "on_toggle_auto_crop c = (if auto_crop_var c then c\<lparr>manual_select_var := False\<rparr> else c)"

definition on_toggle_manual_select :: "config \<Rightarrow> config" where
  "on_toggle_manual_select c = (if manual_select_var c then c\<lparr>auto_crop_var := False\<rparr> else c)"

text \<open>
  A click on a check box: the toolkit flips the variable of the box, then calls the
  command registered for it (lines 211 and 214).
\<close>

definition click_auto_crop :: "config \<Rightarrow> config" where
  "click_auto_crop c = on_toggle_auto_crop (c\<lparr>auto_crop_var := \<not> auto_crop_var c\<rparr>)"

definition click_manual_select :: "config \<Rightarrow> config" where
  "click_manual_select c =
     on_toggle_manual_select (c\<lparr>manual_select_var := \<not> manual_select_var c\<rparr>)"

text \<open>The variables as \<open>_build_ui\<close> creates them (lines 134-213).\<close>

definition init_config :: config where
  "init_config =
     \<lparr>input_var = [], output_var = [], outdir_var = [], dldir_var = [],
      start_time_var = [], end_time_var = [], sample_var = ''0.5'',
      threshold_var = ''10'', crop_var = [], scale_width_var = [], max_pages_var = [],
      a4_var = False, auto_trim_var = True, auto_trim_ratio_var = ''0.98'',
      auto_trim_pad_var = ''6'', auto_trim_sides_var = ''tb'', auto_crop_var = True,
      auto_crop_pad_var = ''6'', auto_crop_min_area_var = ''0.05'',
      manual_select_var = False\<rparr>"

text \<open>
  What the user can do to the variables: click either of the two boxes, or change any
  other field.
\<close>

inductive reachable_config :: "config \<Rightarrow> bool" where
  rc_init: "reachable_config init_config"
| rc_auto: "reachable_config c \<Longrightarrow> reachable_config (click_auto_crop c)"
| rc_manual: "reachable_config c \<Longrightarrow> reachable_config (click_manual_select c)"
| rc_edit: "reachable_config c \<Longrightarrow> auto_crop_var c' = auto_crop_var c \<Longrightarrow>
     manual_select_var c' = manual_select_var c \<Longrightarrow> reachable_config c'"

text \<open>
  The window as far as \<open>_on_run\<close> uses it: the thread started last (\<open>_worker\<close>), the
  threads still running, the input each started thread was given, the dialogs shown
  and the state of the run button.
\<close>

datatype dialog = BusyInfo | MissingInputWarning

record app =
  worker :: "nat option"
  alive :: "nat set"
  started :: "string list"
  dialogs :: "dialog list"
  run_btn_enabled :: bool

definition init_app :: app where
  "init_app = \<lparr>worker = None, alive = {}, started = [], dialogs = [], run_btn_enabled = True\<rparr>"

definition worker_is_alive :: "app \<Rightarrow> bool" where
  "worker_is_alive a = (case worker a of None \<Rightarrow> False | Some t \<Rightarrow> t \<in> alive a)"

text \<open>Lines 291-302 and 454-455; the new thread is numbered by the count of threads so far.\<close>

definition on_run :: "string \<Rightarrow> app \<Rightarrow> app" where
  "on_run input_text a =
     (if worker_is_alive a then a\<lparr>dialogs := dialogs a @ [BusyInfo]\<rparr>
      else if py_strip input_text = [] then a\<lparr>dialogs := dialogs a @ [MissingInputWarning]\<rparr>
      else a\<lparr>worker := Some (length (started a)),
              alive := insert (length (started a)) (alive a),
              started := started a @ [py_strip input_text],
              run_btn_enabled := False\<rparr>)"

text \<open>A thread ends when \<open>work\<close> returns; its \<open>finally\<close> has enabled the button again.\<close>

definition worker_exit :: "nat \<Rightarrow> app \<Rightarrow> app" where
  "worker_exit t a = a\<lparr>alive := alive a - {t}, run_btn_enabled := True\<rparr>"

inductive app_step :: "app \<Rightarrow> app \<Rightarrow> bool" where
  step_run: "app_step a (on_run input_text a)"
| step_exit: "t \<in> alive a \<Longrightarrow> app_step a (worker_exit t a)"

inductive reachable_app :: "app \<Rightarrow> bool" where
  ra_init: "reachable_app init_app"
| ra_step: "reachable_app a \<Longrightarrow> app_step a b \<Longrightarrow> reachable_app b"


subsection \<open>Reading a trace\<close>

text \<open>The stage of a run that an event belongs to.\<close>

datatype stage = SDownload | STrim | SProbe | SSelect | SExtract | SReport

fun stage_of :: "'f event \<Rightarrow> stage" where
  "stage_of (PrintDownloading d) = SDownload"
| "stage_of (PrintDownloaded p) = SDownload"
| "stage_of (CallDownload u d) = SDownload"
| "stage_of (PrintTrimStart s e) = STrim"
| "stage_of (PrintTrimDone p) = STrim"
| "stage_of (CallTrim src dst s e) = STrim"
| "stage_of (CallSubprocess args) = STrim"
| "stage_of (LogResolution x y) = SProbe"
| "stage_of LogRoiPrompt = SSelect"
| "stage_of (LogRoiSelected x y rw rh) = SSelect"
| "stage_of LogRoiCancelled = SSelect"
| "stage_of (LogRoiFailed e) = SSelect"
| "stage_of (CallExtract a) = SExtract"
| "stage_of LogDone = SExtract"
| "stage_of (LogError e) = SReport"
| "stage_of (ShowError e) = SReport"
| "stage_of RunButtonNormal = SReport"

definition events_of :: "stage \<Rightarrow> 'f world \<Rightarrow> 'f event list" where
  "events_of st w = filter (\<lambda>ev. stage_of ev = st) (trace w)"

text \<open>The crop regions and the auto-crop flags the extraction was called with.\<close>

fun extract_call :: "'f event \<Rightarrow> (rect option \<times> bool) list" where
  "extract_call (CallExtract a) = [(crop_region a, auto_crop a)]"
| "extract_call ev = []"

definition extract_calls :: "'f world \<Rightarrow> (rect option \<times> bool) list" where
  "extract_calls w = concat (map extract_call (trace w))"

text \<open>The arguments of the subprocesses that were run.\<close>

fun subprocess_call :: "'f event \<Rightarrow> string list list" where
  "subprocess_call (CallSubprocess args) = [args]"
| "subprocess_call ev = []"

definition subprocess_calls :: "'f world \<Rightarrow> string list list" where
  "subprocess_calls w = concat (map subprocess_call (trace w))"

text \<open>A step adds events of the given stages only, after those already there.\<close>

definition adds :: "stage set \<Rightarrow> ('f world \<Rightarrow> 'r \<times> 'f world) \<Rightarrow> bool" where
  "adds S m =
     (\<forall>w. \<exists>evs. trace (snd (m w)) = trace w @ evs \<and> (\<forall>ev \<in> set evs. stage_of ev \<in> S))"

text \<open>
  The success criterion of an attempt in the words of the specification: exit code
  zero, and the output file exists, and its size is greater than zero.
\<close>

definition spec_attempt_ok :: "int \<times> filesys \<Rightarrow> path \<Rightarrow> bool" where
  "spec_attempt_ok r dst = (fst r = 0 \<and> (case snd r dst of None \<Rightarrow> False | Some n \<Rightarrow> 0 < n))"

text \<open>The selection by hand fails: a call raises, no frame is read, or no area is drawn.\<close>

definition selection_fails :: "'f host \<Rightarrow> path \<Rightarrow> filesys \<Rightarrow> bool" where
  "selection_fails h input_p fs =
     (case read_first_frame h input_p fs of
        Inl e \<Rightarrow> True
      | Inr ok \<Rightarrow>
          \<not> ok \<or> (case select_roi h input_p of
                     Inl e \<Rightarrow> True
                   | Inr (x, y, rw, rh) \<Rightarrow> \<not> (0 < rw \<and> 0 < rh)))"

text \<open>The threads alive are none, or the one started last.\<close>

definition one_worker :: "app \<Rightarrow> bool" where
  "one_worker a = (alive a \<subseteq> (case worker a of None \<Rightarrow> {} | Some t \<Rightarrow> {t}))"

section \<open>A sample interpreter and sample hosts\<close>

text \<open>
  Concrete values for the parameters, to run the model on examples. Floats are exact
  rationals with the two infinities and NaN: rounding is not modelled, so the examples
  use numbers that binary floating point represents exactly. \<open>std_int\<close> reads a signed
  decimal numeral with optional underscores between digits; \<open>std_float\<close> reads a signed
  decimal with an optional fraction, \<open>inf\<close>, \<open>infinity\<close> and \<open>nan\<close>. The conversion of an
  integer overflows from \<open>2 ^ 1024 - 2 ^ 970\<close> on, the first integer that rounds to no
  finite double.
\<close>

datatype xfloat = Fin rat | PosInf | NegInf | NaN

definition is_ascii_digit :: "char \<Rightarrow> bool" where
  "is_ascii_digit c = (48 \<le> ord c \<and> ord c \<le> 57)"

definition nat_of_digits :: "string \<Rightarrow> nat" where
  "nat_of_digits s = foldl (\<lambda>a c. 10 * a + (ord c - 48)) 0 s"

definition parse_nat :: "string \<Rightarrow> nat option" where
  "parse_nat s =
     (let gs = py_split CHR ''_'' s in
      if list_all (\<lambda>g. g \<noteq> [] \<and> list_all is_ascii_digit g) gs
      then Some (nat_of_digits (concat gs)) else None)"

definition std_int :: "string \<Rightarrow> int option" where
  "std_int s =
     (case py_strip s of
        [] \<Rightarrow> None
      | c # r \<Rightarrow>
          if c = CHR ''-'' then map_option (\<lambda>n. - int n) (parse_nat r)
          else if c = CHR ''+'' then map_option int (parse_nat r)
          else map_option int (parse_nat (c # r)))"

definition parse_decimal :: "string \<Rightarrow> rat option" where
  "parse_decimal s =
     (case py_split CHR ''.'' s of
        [ip] \<Rightarrow>
          if ip \<noteq> [] \<and> list_all is_ascii_digit ip
          then Some (of_nat (nat_of_digits ip)) else None
      | [ip, fp] \<Rightarrow>
          if (ip \<noteq> [] \<or> fp \<noteq> []) \<and> list_all is_ascii_digit (ip @ fp)
          then Some (of_nat (nat_of_digits (ip @ fp)) / 10 ^ length fp) else None
      | _ \<Rightarrow> None)"

definition std_float :: "string \<Rightarrow> xfloat option" where
  "std_float s =
     (let t = py_strip s;
          neg = (t \<noteq> [] \<and> hd t = CHR ''-'');
          u = (if t \<noteq> [] \<and> (hd t = CHR ''-'' \<or> hd t = CHR ''+'') then tl t else t);
          l = py_lower u
      in if l = ''nan'' then Some NaN
         else if l = ''inf'' \<or> l = ''infinity'' then Some (if neg then NegInf else PosInf)
         else map_option (\<lambda>q. Fin (if neg then - q else q)) (parse_decimal u))"

definition std_float_of_int :: "int \<Rightarrow> xfloat option" where
  "std_float_of_int n =
     (if \<bar>n\<bar> < 2 ^ 1024 - 2 ^ 970 then Some (Fin (of_int n)) else None)"

fun xadd :: "xfloat \<Rightarrow> xfloat \<Rightarrow> xfloat" where
  "xadd NaN y = NaN"
| "xadd x NaN = NaN"
| "xadd PosInf NegInf = NaN"
| "xadd NegInf PosInf = NaN"
| "xadd PosInf y = PosInf"
| "xadd NegInf y = NegInf"
| "xadd x PosInf = PosInf"
| "xadd x NegInf = NegInf"
| "xadd (Fin a) (Fin b) = Fin (a + b)"

fun xneg :: "xfloat \<Rightarrow> xfloat" where
  "xneg (Fin a) = Fin (- a)"
| "xneg PosInf = NegInf"
| "xneg NegInf = PosInf"
| "xneg NaN = NaN"

fun xlt :: "xfloat \<Rightarrow> xfloat \<Rightarrow> bool" where
  "xlt NaN y = False"
| "xlt x NaN = False"
| "xlt x NegInf = False"
| "xlt PosInf y = False"
| "xlt NegInf y = True"
| "xlt x PosInf = True"
| "xlt (Fin a) (Fin b) = (a < b)"

fun xle :: "xfloat \<Rightarrow> xfloat \<Rightarrow> bool" where
  "xle NaN y = False"
| "xle x NaN = False"
| "xle NegInf y = True"
| "xle x PosInf = True"
| "xle x NegInf = False"
| "xle PosInf y = False"
| "xle (Fin a) (Fin b) = (a \<le> b)"

definition round_half_even :: "rat \<Rightarrow> int" where
  "round_half_even r =
     (let f = \<lfloor>r\<rfloor>; d = r - of_int f in
      if d < 1 / 2 then f else if 1 / 2 < d then f + 1 else if even f then f else f + 1)"

definition pad3 :: "nat \<Rightarrow> string" where
  "pad3 k = [''0123456789'' ! (k div 100), ''0123456789'' ! (k div 10 mod 10),
             ''0123456789'' ! (k mod 10)]"

fun xfmt3 :: "xfloat \<Rightarrow> string" where
  "xfmt3 NaN = ''nan''"
| "xfmt3 PosInf = ''inf''"
| "xfmt3 NegInf = ''-inf''"
| "xfmt3 (Fin q) =
     (let n = nat (round_half_even (\<bar>q\<bar> * 1000)) in
      (if q < 0 then ''-'' else []) @ digits_of (n div 1000) @ ''.'' @ pad3 (n mod 1000))"

definition std_ops :: "xfloat pyops" where
  "std_ops =
     \<lparr>py_int = std_int,
      py_float = std_float,
      float_of_int = std_float_of_int,
      float_lit = (\<lambda>s. case std_float s of Some x \<Rightarrow> x | None \<Rightarrow> NaN),
      fadd = xadd,
      fsub = (\<lambda>x y. xadd x (xneg y)),
      flt = xlt,
      fle = xle,
      fmt3 = xfmt3\<rparr>"

text \<open>Paths with \<open>/\<close> as the separator.\<close>

definition sample_parent :: "path \<Rightarrow> path" where
  "sample_parent p =
     (if CHR ''/'' \<in> set p then rev (tl (dropWhile (\<lambda>c. c \<noteq> CHR ''/'') (rev p))) else ''.'')"

definition sample_name :: "path \<Rightarrow> string" where
  "sample_name p = rev (takeWhile (\<lambda>c. c \<noteq> CHR ''/'') (rev p))"

definition sample_stem :: "path \<Rightarrow> string" where
  "sample_stem p =
     (let n = sample_name p in
      if CHR ''.'' \<in> set n then rev (tl (dropWhile (\<lambda>c. c \<noteq> CHR ''.'') (rev n))) else n)"

definition sample_join :: "path \<Rightarrow> string \<Rightarrow> path" where
  "sample_join a b = a @ ''/'' @ b"

definition sample_with_suffix :: "path \<Rightarrow> string \<Rightarrow> error + path" where
  "sample_with_suffix p sfx =
     (if sample_name p = [] then Inl PyValueError
      else Inr (sample_join (sample_parent p) (sample_stem p @ sfx)))"

text \<open>
  Modelled from the spec: \<open>parse_crop\<close> of the module \<open>video_to_pdf_phash\<close>, whose source
  is not part of the files at hand. The specification gives its grammar (four
  comma-separated non-negative integers \<open>x,y,w,h\<close>), its error for a malformed text and
  the result for \<open>10,20,300,400\<close>; an absent text gives an absent region.
\<close>

definition spec_parse_crop :: "string option \<Rightarrow> error + rect option" where
  "spec_parse_crop spec =
     (case spec of
        None \<Rightarrow> Inr None
      | Some s \<Rightarrow>
          (case map parse_nat (py_split CHR '','' s) of
             [Some x, Some y, Some rw, Some rh] \<Rightarrow> Inr (Some (int x, int y, int rw, int rh))
           | _ \<Rightarrow> Inl RegionSpecError))"

text \<open>
  A download engine that returns the given metadata, and a host whose tool, probe and
  user behave as given: \<open>fast\<close> and \<open>slow\<close> are the exit code of the stream copy and of
  the re-encoding and the size of the file each leaves at the output path (the last
  argument).
\<close>

definition sample_engine :: "error + pyval \<Rightarrow> engine" where
  "sample_engine info =
     \<lparr>mkdir_p = (\<lambda>p fs. Inr (fs(p := Some 0))),
      os_path_join = sample_join,
      extract_info = (\<lambda>opts u fs. (info, fs)),
      prepare_filename =
        (\<lambda>v. case dict_get v ''_filename'' of PStr s \<Rightarrow> Inr s | _ \<Rightarrow> Inl PyKeyError)\<rparr>"

definition sample_run_tool ::
  "int \<times> nat option \<Rightarrow> int \<times> nat option \<Rightarrow> string list \<Rightarrow> filesys \<Rightarrow> int \<times> filesys" where
  "sample_run_tool fast slow args fs =
     (if ''copy'' \<in> set args then (fst fast, fs(last args := snd fast))
      else (fst slow, fs(last args := snd slow)))"

definition sample_host ::
  "string option \<Rightarrow> int \<times> nat option \<Rightarrow> int \<times> nat option \<Rightarrow> error + pyval
     \<Rightarrow> error + capture \<Rightarrow> error + rect \<Rightarrow> xfloat host" where
  "sample_host tool fast slow info probe roi =
     \<lparr>which_ffmpeg = tool,
      run_tool = sample_run_tool fast slow,
      gettempdir = ''/tmp'',
      path_parent = sample_parent,
      path_stem = sample_stem,
      path_join = sample_join,
      path_with_suffix = sample_with_suffix,
      mkdirs = (\<lambda>p fs. Inr (fs(p := Some 0))),
      download_engine = sample_engine info,
      cv2_probe = (\<lambda>p fs. probe),
      read_first_frame = (\<lambda>p fs. Inr True),
      select_roi = (\<lambda>p. roi),
      parse_crop = spec_parse_crop,
      extract_frames_to_pdf = (\<lambda>a fs. (Inr (), fs))\<rparr>"

definition empty_world :: "xfloat world" where
  "empty_world = \<lparr>files = (\<lambda>p. None), trace = []\<rparr>"

section \<open>Properties\<close>


subsection \<open>Python strings\<close>

lemma py_endswith_p: "py_endswith q ''p'' \<longleftrightarrow> (\<exists>pre. q = pre @ ''p'')"
proof
  assume "py_endswith q ''p''"
  then have "q \<noteq> []" and "drop (length q - 1) q = ''p''"
    by (auto simp: py_endswith_def)
  then have "q = take (length q - 1) q @ ''p''"
    by (metis append_take_drop_id)
  then show "\<exists>pre. q = pre @ ''p''" ..
next
  assume "\<exists>pre. q = pre @ ''p''"
  then show "py_endswith q ''p''"
    by (auto simp: py_endswith_def)
qed

lemma set_py_strip: "set (py_strip s) \<subseteq> set s"
proof -
  have "set (py_strip s) \<subseteq> set (dropWhile isspace_char s)"
    unfolding py_strip_def using set_dropWhileD by fastforce
  also have "\<dots> \<subseteq> set s"
    using set_dropWhileD by fastforce
  finally show ?thesis .
qed

lemma std_int_isdigit_nonneg:
  assumes "py_isdigit s" and "std_int s = Some n"
  shows "0 \<le> n"
proof (cases "py_strip s")
  case Nil
  with assms(2) show ?thesis by (simp add: std_int_def)
next
  case (Cons c r)
  then have "c \<in> set s"
    using set_py_strip [of s] by auto
  with assms(1) have "isdigit_char c"
    by (auto simp: py_isdigit_def list_all_iff)
  then have "c \<noteq> CHR ''-''"
    by (auto simp: isdigit_char_def ord_def)
  with assms(2) Cons show ?thesis
    by (auto simp: std_int_def split: if_splits)
qed

subsection \<open>The format query of the download\<close>

lemma max_height_of_append:
  "max_height_of ops (pre @ ''p'') = (if py_isdigit pre then py_int ops pre else None)"
  by (simp add: max_height_of_def py_endswith_def butlast_append)

text \<open>
  C4. Let \<open>int\<close> never return a negative number for a string of digits, as Python's
  does not. For a quality \<open><H>p\<close> whose prefix is all digits and parses to a positive
  integer H, the format query bounds the height by H on the video-only branch and on
  the combined branch; for every other quality the query is the unconstrained
  \<open>bv*+ba/b\<close>; and this query is the \<open>format\<close> option the engine is given.
\<close>

theorem format_selector_height_bound:
  assumes nonneg: "\<forall>s n. py_isdigit s \<longrightarrow> py_int ops s = Some n \<longrightarrow> 0 \<le> n"
  shows "(py_isdigit pre \<and> py_int ops pre = Some H \<and> 0 < H \<longrightarrow>
            format_selector ops (pre @ ''p'') =
              ''bv*[height<=?'' @ str_int H @ '']+ba/b[height<=?'' @ str_int H @ '']'') \<and>
         (\<not> (\<exists>pre H. q = pre @ ''p'' \<and> py_isdigit pre \<and> py_int ops pre = Some H \<and> 0 < H) \<longrightarrow>
            format_selector ops q = ''bv*+ba/b'') \<and>
         map_of (filter (\<lambda>kv. snd kv \<noteq> ONone) (ydl_opts ops eng a)) ''format'' =
           Some (OStr (format_selector ops (quality a)))"
proof (intro conjI impI)
  assume "py_isdigit pre \<and> py_int ops pre = Some H \<and> 0 < H"
  then show "format_selector ops (pre @ ''p'') =
      ''bv*[height<=?'' @ str_int H @ '']+ba/b[height<=?'' @ str_int H @ '']''"
    by (simp add: format_selector_def max_height_of_append bounded_format_def)
next
  assume other:
    "\<not> (\<exists>pre H. q = pre @ ''p'' \<and> py_isdigit pre \<and> py_int ops pre = Some H \<and> 0 < H)"
  show "format_selector ops q = ''bv*+ba/b''"
  proof (cases "max_height_of ops q")
    case None
    then show ?thesis by (simp add: format_selector_def)
  next
    case (Some h)
    then have e: "py_endswith q ''p''" and d: "py_isdigit (butlast q)"
      and i: "py_int ops (butlast q) = Some h"
      by (auto simp: max_height_of_def split: if_splits)
    from e obtain pre where q: "q = pre @ ''p''"
      by (auto simp: py_endswith_p)
    with d i have "py_isdigit pre" and "py_int ops pre = Some h"
      by (simp_all add: butlast_append)
    with other q nonneg have "h = 0"
      by force
    with Some show ?thesis by (simp add: format_selector_def)
  qed
next
  show "map_of (filter (\<lambda>kv. snd kv \<noteq> ONone) (ydl_opts ops eng a)) ''format'' =
      Some (OStr (format_selector ops (quality a)))"
    by (simp add: ydl_opts_def)
qed

theorem format_selector_height_bound_witness:
  "format_selector std_ops ''720p'' = ''bv*[height<=?720]+ba/b[height<=?720]'' \<and>
   format_selector std_ops ''best'' = ''bv*+ba/b''"
proof -
  have nn: "\<forall>s n. py_isdigit s \<longrightarrow> py_int std_ops s = Some n \<longrightarrow> 0 \<le> n"
    by (simp add: std_ops_def std_int_isdigit_nonneg)
  have d: "py_isdigit ''720''" by code_simp
  have i: "py_int std_ops ''720'' = Some 720" by code_simp
  have s: "str_int 720 = ''720''" by code_simp
  have o: "\<not> (\<exists>pre H. ''best'' = pre @ ''p'' \<and> py_isdigit pre \<and>
      py_int std_ops pre = Some H \<and> 0 < H)"
    by (auto dest: arg_cong [where f = last])
  from format_selector_height_bound
      [where ops = std_ops and pre = "''720''" and H = 720 and q = "''best''", OF nn] d i s o
  show ?thesis by simp
qed


subsection \<open>The time parser\<close>

lemma py_split_nonempty: "py_split c s \<noteq> []"
  by (induction s) auto

lemma py_split_no_sep: "c \<notin> set s \<Longrightarrow> py_split c s = [s]"
  by (induction s) auto

lemma py_split_append: "c \<notin> set a \<Longrightarrow> py_split c (a @ c # b) = a # py_split c b"
  by (induction a) auto

lemma length_py_split: "length (py_split c s) = Suc (length (filter (\<lambda>x. x = c) s))"
proof (induction s)
  case Nil
  show ?case by simp
next
  case (Cons x xs)
  have "length (tl (py_split c xs)) = length (py_split c xs) - 1"
    by simp
  with Cons py_split_nonempty [of c xs] show ?case
    by (cases "py_split c xs") auto
qed

lemma parse_time_error_is_hint: "parse_time_to_seconds ops t = Inl e \<Longrightarrow> e = TimeFormatError"
  by (auto simp: parse_time_to_seconds_def Let_def split: if_splits sum.splits)

lemma parse_time_one_part:
  assumes "py_strip t \<noteq> []" and "CHR '':'' \<notin> set (py_strip t)"
  shows "parse_time_to_seconds ops t =
    (case py_float ops (py_strip t) of None \<Rightarrow> Inl TimeFormatError | Some x \<Rightarrow> Inr (Some x))"
  using assms
  by (simp add: parse_time_to_seconds_def parse_time_body_def py_split_no_sep split: option.splits)

lemma parse_time_two_parts:
  assumes "py_strip t = ms @ '':'' @ ss" and "CHR '':'' \<notin> set ms" and "CHR '':'' \<notin> set ss"
  shows "parse_time_to_seconds ops t =
    (case py_int ops ms of
       None \<Rightarrow> Inl TimeFormatError
     | Some m \<Rightarrow>
         (case py_float ops ss of
            None \<Rightarrow> Inl TimeFormatError
          | Some sec \<Rightarrow>
              (case float_of_int ops (60 * m) of
                 None \<Rightarrow> Inl TimeFormatError
               | Some f \<Rightarrow> Inr (Some (fadd ops f sec)))))"
proof -
  have "py_split CHR '':'' (py_strip t) = [ms, ss]"
    using assms by (simp add: py_split_append py_split_no_sep)
  then show ?thesis
    using assms(1)
    by (simp add: parse_time_to_seconds_def parse_time_body_def int_add_float_def mult.commute
        split: option.splits)
qed

lemma parse_time_three_parts:
  assumes "py_strip t = hs @ '':'' @ ms @ '':'' @ ss"
    and "CHR '':'' \<notin> set hs" and "CHR '':'' \<notin> set ms" and "CHR '':'' \<notin> set ss"
  shows "parse_time_to_seconds ops t =
    (case py_int ops hs of
       None \<Rightarrow> Inl TimeFormatError
     | Some h \<Rightarrow>
         (case py_int ops ms of
            None \<Rightarrow> Inl TimeFormatError
          | Some m \<Rightarrow>
              (case py_float ops ss of
                 None \<Rightarrow> Inl TimeFormatError
               | Some sec \<Rightarrow>
                   (case float_of_int ops (3600 * h + 60 * m) of
                      None \<Rightarrow> Inl TimeFormatError
                    | Some f \<Rightarrow> Inr (Some (fadd ops f sec))))))"
proof -
  have "py_split CHR '':'' (py_strip t) = [hs, ms, ss]"
    using assms by (simp add: py_split_append py_split_no_sep)
  then show ?thesis
    using assms(1)
    by (simp add: parse_time_to_seconds_def parse_time_body_def int_add_float_def mult.commute
        split: option.splits)
qed

lemma parse_time_many_parts:
  assumes "3 \<le> length (filter (\<lambda>x. x = CHR '':'') (py_strip t))"
  shows "parse_time_to_seconds ops t = Inl TimeFormatError"
proof -
  from assms have "py_strip t \<noteq> []" by auto
  moreover from assms have "3 < length (py_split CHR '':'' (py_strip t))"
    by (simp add: length_py_split)
  ultimately show ?thesis
    by (simp add: parse_time_to_seconds_def parse_time_body_def)
qed


lemma py_strip_id:
  assumes "s \<noteq> []" and "\<not> isspace_char (hd s)" and "\<not> isspace_char (last s)"
  shows "py_strip s = s"
proof -
  from assms(1,2) have a: "dropWhile isspace_char s = s"
    by (cases s) auto
  from assms(1,3) have "dropWhile isspace_char (rev s) = rev s"
    by (cases "rev s") (auto simp: hd_rev)
  with a show ?thesis by (simp add: py_strip_def)
qed

lemma nat_of_digits_snoc:
  "nat_of_digits (s @ [c]) = 10 * nat_of_digits s + (ord c - 48)"
  by (simp add: nat_of_digits_def)

lemma nat_of_digits_zeros:
  "nat_of_digits (s @ replicate n (CHR ''0'')) = nat_of_digits s * 10 ^ n"
proof (induction n)
  case 0
  show ?case by simp
next
  case (Suc n)
  have "nat_of_digits (s @ replicate (Suc n) (CHR ''0'')) =
      nat_of_digits ((s @ replicate n (CHR ''0'')) @ [CHR ''0''])"
    by (simp add: replicate_append_same)
  also have "\<dots> = 10 * nat_of_digits (s @ replicate n (CHR ''0''))"
    by (simp only: nat_of_digits_snoc) (simp add: ord_def)
  finally show ?case using Suc by simp
qed

lemma parse_nat_digits:
  assumes "s \<noteq> []" and "list_all is_ascii_digit s"
  shows "parse_nat s = Some (nat_of_digits s)"
proof -
  have "\<not> is_ascii_digit (CHR ''_'')"
    by (simp add: is_ascii_digit_def ord_def)
  with assms(2) have "CHR ''_'' \<notin> set s"
    by (auto simp: list_all_iff)
  then have "py_split (CHR ''_'') s = [s]"
    by (rule py_split_no_sep)
  with assms show ?thesis by (simp add: parse_nat_def)
qed

lemma big_minutes: "std_int (CHR ''1'' # replicate 400 (CHR ''0'')) = Some (10 ^ 400)"
proof -
  let ?s = "CHR ''1'' # replicate 400 (CHR ''0'')"
  have sp: "\<not> isspace_char (CHR ''1'')" "\<not> isspace_char (CHR ''0'')"
    by (simp_all add: isspace_char_def ord_def)
  then have "py_strip ?s = ?s"
    by (intro py_strip_id) simp_all
  moreover have "list_all is_ascii_digit ?s"
    by (simp add: list_all_iff is_ascii_digit_def ord_def)
  then have "parse_nat ?s = Some (nat_of_digits ?s)"
    by (intro parse_nat_digits) simp_all
  moreover have "nat_of_digits ?s = 10 ^ 400"
    using nat_of_digits_zeros [of "''1''" 400] by (simp add: nat_of_digits_def ord_def)
  ultimately show ?thesis
    by (simp add: std_int_def)
qed

lemma big_overflows: "std_float_of_int (60 * 10 ^ 400) = None"
proof -
  have "(2::int) ^ 1024 \<le> 2 ^ 1200" by (rule power_increasing) simp_all
  also have "\<dots> = (8::int) ^ 400" by (simp add: power_mult [symmetric, of 2 3 400, simplified])
  also have "\<dots> \<le> 10 ^ 400" by (rule power_mono) simp_all
  finally have "(2::int) ^ 1024 \<le> 60 * 10 ^ 400" by simp
  moreover have "(0::int) < 2 ^ 970" by simp
  ultimately have "\<not> \<bar>60 * 10 ^ 400 :: int\<bar> < 2 ^ 1024 - 2 ^ 970"
    by linarith
  then show ?thesis
    by (simp only: std_float_of_int_def if_False)
qed


text \<open>
  C3, as amended. The parser returns absent when the stripped text is empty;
  \<open>float(SS)\<close> for a text without a colon; \<open>60 * M + S\<close> for \<open>M:S\<close> and
  \<open>3600 * H + 60 * M + S\<close> for \<open>H:M:S\<close>, where the minutes and hours are read by \<open>int\<close>,
  the seconds by \<open>float\<close>, and the integer part is converted to a float before the sum;
  and it raises the error that carries the format hint, and no other, in every other
  case: a component that \<open>int\<close> or \<open>float\<close> rejects, more than three parts, or an
  integer part too large to convert to a float.
\<close>

theorem parse_time_shapes:
  "(py_strip t = [] \<longrightarrow> parse_time_to_seconds ops t = Inr None) \<and>
   (py_strip t \<noteq> [] \<and> CHR '':'' \<notin> set (py_strip t) \<longrightarrow>
      parse_time_to_seconds ops t =
        (case py_float ops (py_strip t) of
           None \<Rightarrow> Inl TimeFormatError
         | Some x \<Rightarrow> Inr (Some x))) \<and>
   (py_strip t = ms @ '':'' @ ss \<and> CHR '':'' \<notin> set ms \<and> CHR '':'' \<notin> set ss \<longrightarrow>
      parse_time_to_seconds ops t =
        (case py_int ops ms of
           None \<Rightarrow> Inl TimeFormatError
         | Some m \<Rightarrow>
             (case py_float ops ss of
                None \<Rightarrow> Inl TimeFormatError
              | Some sec \<Rightarrow>
                  (case float_of_int ops (60 * m) of
                     None \<Rightarrow> Inl TimeFormatError
                   | Some f \<Rightarrow> Inr (Some (fadd ops f sec)))))) \<and>
   (py_strip t = hs' @ '':'' @ ms' @ '':'' @ ss' \<and> CHR '':'' \<notin> set hs' \<and>
    CHR '':'' \<notin> set ms' \<and> CHR '':'' \<notin> set ss' \<longrightarrow>
      parse_time_to_seconds ops t =
        (case py_int ops hs' of
           None \<Rightarrow> Inl TimeFormatError
         | Some h \<Rightarrow>
             (case py_int ops ms' of
                None \<Rightarrow> Inl TimeFormatError
              | Some m \<Rightarrow>
                  (case py_float ops ss' of
                     None \<Rightarrow> Inl TimeFormatError
                   | Some sec \<Rightarrow>
                       (case float_of_int ops (3600 * h + 60 * m) of
                          None \<Rightarrow> Inl TimeFormatError
                        | Some f \<Rightarrow> Inr (Some (fadd ops f sec))))))) \<and>
   (3 \<le> length (filter (\<lambda>x. x = CHR '':'') (py_strip t)) \<longrightarrow>
      parse_time_to_seconds ops t = Inl TimeFormatError) \<and>
   (parse_time_to_seconds ops t = Inl e \<longrightarrow> e = TimeFormatError)"
proof (intro conjI impI)
  assume "py_strip t = []"
  then show "parse_time_to_seconds ops t = Inr None"
    by (simp add: parse_time_to_seconds_def)
next
  assume "py_strip t \<noteq> [] \<and> CHR '':'' \<notin> set (py_strip t)"
  then show "parse_time_to_seconds ops t =
      (case py_float ops (py_strip t) of
         None \<Rightarrow> Inl TimeFormatError
       | Some x \<Rightarrow> Inr (Some x))"
    by (simp add: parse_time_one_part)
next
  assume "py_strip t = ms @ '':'' @ ss \<and> CHR '':'' \<notin> set ms \<and> CHR '':'' \<notin> set ss"
  then show "parse_time_to_seconds ops t =
        (case py_int ops ms of
           None \<Rightarrow> Inl TimeFormatError
         | Some m \<Rightarrow>
             (case py_float ops ss of
                None \<Rightarrow> Inl TimeFormatError
              | Some sec \<Rightarrow>
                  (case float_of_int ops (60 * m) of
                     None \<Rightarrow> Inl TimeFormatError
                   | Some f \<Rightarrow> Inr (Some (fadd ops f sec)))))"
    by (intro parse_time_two_parts) simp_all
next
  assume "py_strip t = hs' @ '':'' @ ms' @ '':'' @ ss' \<and> CHR '':'' \<notin> set hs' \<and>
    CHR '':'' \<notin> set ms' \<and> CHR '':'' \<notin> set ss'"
  then show "parse_time_to_seconds ops t =
        (case py_int ops hs' of
           None \<Rightarrow> Inl TimeFormatError
         | Some h \<Rightarrow>
             (case py_int ops ms' of
                None \<Rightarrow> Inl TimeFormatError
              | Some m \<Rightarrow>
                  (case py_float ops ss' of
                     None \<Rightarrow> Inl TimeFormatError
                   | Some sec \<Rightarrow>
                       (case float_of_int ops (3600 * h + 60 * m) of
                          None \<Rightarrow> Inl TimeFormatError
                        | Some f \<Rightarrow> Inr (Some (fadd ops f sec))))))"
    by (intro parse_time_three_parts) simp_all
next
  assume "3 \<le> length (filter (\<lambda>x. x = CHR '':'') (py_strip t))"
  then show "parse_time_to_seconds ops t = Inl TimeFormatError"
    by (rule parse_time_many_parts)
next
  assume "parse_time_to_seconds ops t = Inl e"
  then show "e = TimeFormatError"
    by (rule parse_time_error_is_hint)
qed

theorem parse_time_shapes_witness:
  "parse_time_to_seconds std_ops ''01:30'' = Inr (Some (Fin 90)) \<and>
   parse_time_to_seconds std_ops ''90'' = Inr (Some (Fin 90)) \<and>
   parse_time_to_seconds std_ops ''1:02:03.5'' = Inr (Some (Fin (7447 / 2))) \<and>
   parse_time_to_seconds std_ops ''  '' = Inr None \<and>
   parse_time_to_seconds std_ops ''1:2:3:4'' = Inl TimeFormatError \<and>
   parse_time_to_seconds std_ops ''1.5:30'' = Inl TimeFormatError \<and>
   parse_time_to_seconds std_ops ''abc'' = Inl TimeFormatError"
proof -
  have st: "py_strip ''01:30'' = ''01'' @ '':'' @ ''30''" by code_simp
  have c: "CHR '':'' \<notin> set ''01''" "CHR '':'' \<notin> set ''30''" by simp_all
  have i: "py_int std_ops ''01'' = Some 1" by code_simp
  have f: "py_float std_ops ''30'' = Some (Fin 30)" by code_simp
  have v: "float_of_int std_ops (60 * 1) = Some (Fin 60)" by code_simp
  have a: "fadd std_ops (Fin 60) (Fin 30) = Fin 90" by code_simp
  from parse_time_shapes [where ops = std_ops and t = "''01:30''" and ms = "''01''"
      and ss = "''30''"] st c
  have "parse_time_to_seconds std_ops ''01:30'' =
        (case py_int std_ops ''01'' of
           None \<Rightarrow> Inl TimeFormatError
         | Some m \<Rightarrow>
             (case py_float std_ops ''30'' of
                None \<Rightarrow> Inl TimeFormatError
              | Some sec \<Rightarrow>
                  (case float_of_int std_ops (60 * m) of
                     None \<Rightarrow> Inl TimeFormatError
                   | Some f \<Rightarrow> Inr (Some (fadd std_ops f sec)))))"
    by blast
  with i f v a have "parse_time_to_seconds std_ops ''01:30'' = Inr (Some (Fin 90))"
    by simp
  moreover have "parse_time_to_seconds std_ops ''90'' = Inr (Some (Fin 90))" by code_simp
  moreover have "parse_time_to_seconds std_ops ''1:02:03.5'' = Inr (Some (Fin (7447 / 2)))"
    by code_simp
  moreover have "parse_time_to_seconds std_ops ''  '' = Inr None" by code_simp
  moreover have "parse_time_to_seconds std_ops ''1:2:3:4'' = Inl TimeFormatError" by code_simp
  moreover have "parse_time_to_seconds std_ops ''1.5:30'' = Inl TimeFormatError" by code_simp
  moreover have "parse_time_to_seconds std_ops ''abc'' = Inl TimeFormatError" by code_simp
  ultimately show ?thesis by blast
qed


text \<open>
  The claim as stated fails for a well-formed text \<open>M:S\<close> whose minutes are too large: with
  M the numeral 1 followed by 400 zeros and S the numeral 0, the sum \<open>m * 60 + sec\<close> raises
  \<open>OverflowError\<close> inside the \<open>try\<close>, and the parser raises the format error instead of
  returning \<open>60 * M + S\<close>.
\<close>

theorem parse_time_overflow_counterexample:
  "parse_time_to_seconds std_ops (CHR ''1'' # replicate 400 (CHR ''0'') @ '':0'') =
     Inl TimeFormatError"
proof -
  let ?m = "CHR ''1'' # replicate 400 (CHR ''0'')"
  have sp: "\<not> isspace_char (CHR ''1'')" "\<not> isspace_char (CHR ''0'')"
    by (simp_all add: isspace_char_def ord_def)
  then have st: "py_strip (?m @ '':0'') = ?m @ '':'' @ ''0''"
    by (intro trans [OF py_strip_id]) simp_all
  have "parse_time_to_seconds std_ops (?m @ '':0'') =
    (case py_int std_ops ?m of
       None \<Rightarrow> Inl TimeFormatError
     | Some m \<Rightarrow>
         (case py_float std_ops ''0'' of
            None \<Rightarrow> Inl TimeFormatError
          | Some sec \<Rightarrow>
              (case float_of_int std_ops (60 * m) of
                 None \<Rightarrow> Inl TimeFormatError
               | Some f \<Rightarrow> Inr (Some (fadd std_ops f sec)))))"
    by (rule parse_time_two_parts [OF st]) simp_all
  also have "\<dots> = Inl TimeFormatError"
    using big_minutes big_overflows by (simp add: std_ops_def split: option.splits)
  finally show ?thesis by simp
qed



subsection \<open>The trimmer\<close>

lemma emit_simps [simp]:
  "files (emit ev w) = files w" "trace (emit ev w) = trace w @ [ev]"
  by (simp_all add: emit_def)

lemma run_subprocess_eq:
  "run_subprocess h args w =
     (fst (run_tool h args (files w)),
      w\<lparr>files := snd (run_tool h args (files w)), trace := trace w @ [CallSubprocess args]\<rparr>)"
  by (simp add: run_subprocess_def emit_def split: prod.splits)


text \<open>
  C1. With the tool found: the stream copy counts as successful exactly when its exit
  code is zero, the output file exists and its size is greater than zero, and then
  nothing else is run; whenever one of the three fails (a zero exit code with a
  zero-byte file included) the re-encoding is run next; the trimmer raises
  \<open>TrimFailed\<close> when the re-encoding fails the same criterion, and raises nothing when
  either attempt succeeds.
\<close>

theorem trim_fallback:
  assumes "which_ffmpeg h = Some ffmpeg" and "ffmpeg \<noteq> []"
  shows "let args = trim_args ops ffmpeg src start_s end_s;
             r1 = run_tool h (args @ fast_flags dst) (files w);
             r2 = run_tool h (args @ slow_flags dst) (snd r1);
             res = trim_video_with_ffmpeg ops h src dst start_s end_s w
         in (spec_attempt_ok r1 dst \<longrightarrow>
               fst res = Inr () \<and> files (snd res) = snd r1 \<and>
               trace (snd res) = trace w @ [CallSubprocess (args @ fast_flags dst)]) \<and>
            (\<not> spec_attempt_ok r1 dst \<longrightarrow>
               trace (snd res) =
                 trace w @ [CallSubprocess (args @ fast_flags dst),
                            CallSubprocess (args @ slow_flags dst)] \<and>
               files (snd res) = snd r2 \<and>
               fst res = (if spec_attempt_ok r2 dst then Inr () else Inl TrimFailed))"
  using assms
  by (auto simp: trim_video_with_ffmpeg_def run_subprocess_eq spec_attempt_ok_def Let_def
      path_exists_def st_size_def split: option.splits)

theorem trim_fallback_witness:
  "fst (trim_video_with_ffmpeg std_ops
          (sample_host (Some ''/usr/bin/ffmpeg'') (0, Some 0) (0, Some 2048)
             (Inl DownloadError) (Inl PyValueError) (Inr (0, 0, 0, 0)))
          ''/v/in.mp4'' ''/v/out.mp4'' None None empty_world) = Inr () \<and>
   trace (snd (trim_video_with_ffmpeg std_ops
          (sample_host (Some ''/usr/bin/ffmpeg'') (0, Some 0) (0, Some 2048)
             (Inl DownloadError) (Inl PyValueError) (Inr (0, 0, 0, 0)))
          ''/v/in.mp4'' ''/v/out.mp4'' None None empty_world)) =
     [CallSubprocess [''/usr/bin/ffmpeg'', ''-y'', ''-i'', ''/v/in.mp4'', ''-c'', ''copy'',
                      ''/v/out.mp4''],
      CallSubprocess [''/usr/bin/ffmpeg'', ''-y'', ''-i'', ''/v/in.mp4'', ''-c:v'', ''libx264'',
                      ''-preset'', ''fast'', ''-crf'', ''23'', ''-c:a'', ''aac'', ''-b:a'',
                      ''192k'', ''/v/out.mp4'']] \<and>
   fst (trim_video_with_ffmpeg std_ops
          (sample_host (Some ''/usr/bin/ffmpeg'') (0, Some 2048) (0, Some 2048)
             (Inl DownloadError) (Inl PyValueError) (Inr (0, 0, 0, 0)))
          ''/v/in.mp4'' ''/v/out.mp4'' None None empty_world) = Inr () \<and>
   trace (snd (trim_video_with_ffmpeg std_ops
          (sample_host (Some ''/usr/bin/ffmpeg'') (0, Some 2048) (0, Some 2048)
             (Inl DownloadError) (Inl PyValueError) (Inr (0, 0, 0, 0)))
          ''/v/in.mp4'' ''/v/out.mp4'' None None empty_world)) =
     [CallSubprocess [''/usr/bin/ffmpeg'', ''-y'', ''-i'', ''/v/in.mp4'', ''-c'', ''copy'',
                      ''/v/out.mp4'']] \<and>
   fst (trim_video_with_ffmpeg std_ops
          (sample_host (Some ''/usr/bin/ffmpeg'') (1, Some 2048) (0, None)
             (Inl DownloadError) (Inl PyValueError) (Inr (0, 0, 0, 0)))
          ''/v/in.mp4'' ''/v/out.mp4'' None None empty_world) = Inl TrimFailed"
proof -
  let ?h = "sample_host (Some ''/usr/bin/ffmpeg'') (0, Some 0) (0, Some 2048)
             (Inl DownloadError) (Inl PyValueError) (Inr (0, 0, 0, 0))"
  let ?g = "sample_host (Some ''/usr/bin/ffmpeg'') (0, Some 2048) (0, Some 2048)
             (Inl DownloadError) (Inl PyValueError) (Inr (0, 0, 0, 0))"
  let ?k = "sample_host (Some ''/usr/bin/ffmpeg'') (1, Some 2048) (0, None)
             (Inl DownloadError) (Inl PyValueError) (Inr (0, 0, 0, 0))"
  have tool: "which_ffmpeg ?h = Some ''/usr/bin/ffmpeg''" "''/usr/bin/ffmpeg'' \<noteq> []"
    and toolg: "which_ffmpeg ?g = Some ''/usr/bin/ffmpeg''"
    and toolk: "which_ffmpeg ?k = Some ''/usr/bin/ffmpeg''"
    by (simp_all add: sample_host_def)
  have args: "trim_args std_ops ''/usr/bin/ffmpeg'' ''/v/in.mp4'' None None =
      [''/usr/bin/ffmpeg'', ''-y'', ''-i'', ''/v/in.mp4'']"
    by (simp add: trim_args_def)
  have r: "run_tool ?h = sample_run_tool (0, Some 0) (0, Some 2048)"
    "run_tool ?g = sample_run_tool (0, Some 2048) (0, Some 2048)"
    "run_tool ?k = sample_run_tool (1, Some 2048) (0, None)"
    by (simp_all add: sample_host_def)
  note ev = Let_def args r sample_run_tool_def fast_flags_def slow_flags_def
    spec_attempt_ok_def empty_world_def
  from trim_fallback [OF tool, where ops = std_ops and src = "''/v/in.mp4''"
      and dst = "''/v/out.mp4''" and start_s = None and end_s = None and w = empty_world]
  have a: "fst (trim_video_with_ffmpeg std_ops ?h ''/v/in.mp4'' ''/v/out.mp4'' None None
      empty_world) = Inr () \<and>
    trace (snd (trim_video_with_ffmpeg std_ops ?h ''/v/in.mp4'' ''/v/out.mp4'' None None
      empty_world)) =
     [CallSubprocess [''/usr/bin/ffmpeg'', ''-y'', ''-i'', ''/v/in.mp4'', ''-c'', ''copy'',
                      ''/v/out.mp4''],
      CallSubprocess [''/usr/bin/ffmpeg'', ''-y'', ''-i'', ''/v/in.mp4'', ''-c:v'', ''libx264'',
                      ''-preset'', ''fast'', ''-crf'', ''23'', ''-c:a'', ''aac'', ''-b:a'',
                      ''192k'', ''/v/out.mp4'']]"
    by (simp add: ev)
  from trim_fallback [OF toolg tool(2), where ops = std_ops and src = "''/v/in.mp4''"
      and dst = "''/v/out.mp4''" and start_s = None and end_s = None and w = empty_world]
  have b: "fst (trim_video_with_ffmpeg std_ops ?g ''/v/in.mp4'' ''/v/out.mp4'' None None
      empty_world) = Inr () \<and>
    trace (snd (trim_video_with_ffmpeg std_ops ?g ''/v/in.mp4'' ''/v/out.mp4'' None None
      empty_world)) =
     [CallSubprocess [''/usr/bin/ffmpeg'', ''-y'', ''-i'', ''/v/in.mp4'', ''-c'', ''copy'',
                      ''/v/out.mp4'']]"
    by (simp add: ev)
  from trim_fallback [OF toolk tool(2), where ops = std_ops and src = "''/v/in.mp4''"
      and dst = "''/v/out.mp4''" and start_s = None and end_s = None and w = empty_world]
  have c: "fst (trim_video_with_ffmpeg std_ops ?k ''/v/in.mp4'' ''/v/out.mp4'' None None
      empty_world) = Inl TrimFailed"
    by (simp add: ev)
  from a b c show ?thesis by blast
qed


text \<open>
  C9, as amended. Without the tool on the search path the trimmer raises \<open>ToolMissing\<close>
  and runs no subprocess (the world is unchanged). Otherwise the shared arguments are
  the tool, the overwrite flag, \<open>-ss start\<close> exactly when a start is given, the input,
  and \<open>-t end - start\<close> exactly when both bounds are given and the end is greater than
  the start; with only an end bound no duration is passed.
\<close>

theorem trim_prefix:
  "(which_ffmpeg h = None \<or> which_ffmpeg h = Some [] \<longrightarrow>
      trim_video_with_ffmpeg ops h src dst start_s end_s w = (Inl ToolMissing, w)) \<and>
   trim_args ops ffmpeg src None end_s = [ffmpeg, ''-y'', ''-i'', src] \<and>
   trim_args ops ffmpeg src (Some s) None = [ffmpeg, ''-y'', ''-ss'', fmt3 ops s, ''-i'', src] \<and>
   trim_args ops ffmpeg src (Some s) (Some e) =
     [ffmpeg, ''-y'', ''-ss'', fmt3 ops s, ''-i'', src]
     @ (if flt ops s e then [''-t'', fmt3 ops (fsub ops e s)] else [])"
  by (auto simp: trim_video_with_ffmpeg_def trim_args_def)

theorem trim_prefix_witness:
  "trim_video_with_ffmpeg std_ops
     (sample_host None (0, Some 0) (0, Some 2048) (Inl DownloadError) (Inl PyValueError)
        (Inr (0, 0, 0, 0)))
     ''/v/in.mp4'' ''/v/out.mp4'' (Some (Fin 5)) (Some (Fin 65)) empty_world =
     (Inl ToolMissing, empty_world) \<and>
   trim_args std_ops ''ffmpeg'' ''in.mp4'' (Some (Fin 5)) (Some (Fin 65)) =
     [''ffmpeg'', ''-y'', ''-ss'', ''5.000'', ''-i'', ''in.mp4'', ''-t'', ''60.000''] \<and>
   trim_args std_ops ''ffmpeg'' ''in.mp4'' None (Some (Fin 65)) =
     [''ffmpeg'', ''-y'', ''-i'', ''in.mp4'']"
proof -
  let ?h = "sample_host None (0, Some 0) (0, Some 2048) (Inl DownloadError) (Inl PyValueError)
        (Inr (0, 0, 0, 0))"
  have n: "which_ffmpeg ?h = None" by (simp add: sample_host_def)
  have l: "flt std_ops (Fin 5) (Fin 65)" by (simp add: std_ops_def)
  have f5: "fmt3 std_ops (Fin 5) = ''5.000''"
    by (simp add: std_ops_def round_half_even_def digits_of.simps pad3_def)
  have f60: "fmt3 std_ops (fsub std_ops (Fin 65) (Fin 5)) = ''60.000''"
    by (simp add: std_ops_def round_half_even_def digits_of.simps pad3_def)
  from trim_prefix [where h = ?h and ops = std_ops and s = "Fin 5" and e = "Fin 65"] n l f5 f60
  show ?thesis by simp
qed

text \<open>
  The claim as stated fails when both bounds are given and the end is not greater than
  the start: line 107 then leaves the duration absent. A run reaches the trimmer in
  that state with the start text \<open>nan\<close> and the end text \<open>10\<close>: the test of line 356,
  \<open>end_s <= start_s\<close>, is false, and so is \<open>end_s > start_s\<close>.
\<close>

theorem trim_duration_counterexample:
  "trim_args std_ops ''ffmpeg'' ''in.mp4'' (Some (Fin 5)) (Some (Fin 3)) =
     [''ffmpeg'', ''-y'', ''-ss'', ''5.000'', ''-i'', ''in.mp4''] \<and>
   subprocess_calls (snd (work std_ops
      (sample_host (Some ''/usr/bin/ffmpeg'') (0, Some 2048) (0, Some 2048) (Inl DownloadError)
         (Inl PyValueError) (Inr (0, 0, 0, 0)))
      (init_config\<lparr>start_time_var := ''nan'', end_time_var := ''10''\<rparr>)
      ''/v/talk.mp4'' empty_world)) =
     [[''/usr/bin/ffmpeg'', ''-y'', ''-ss'', ''nan'', ''-i'', ''/v/talk.mp4'', ''-c'', ''copy'',
       ''/tmp/video2pdf_segments/talk.clip.mp4'']]"
proof (intro conjI)
  show "trim_args std_ops ''ffmpeg'' ''in.mp4'' (Some (Fin 5)) (Some (Fin 3)) =
     [''ffmpeg'', ''-y'', ''-ss'', ''5.000'', ''-i'', ''in.mp4'']"
    by (simp add: trim_args_def std_ops_def round_half_even_def digits_of.simps pad3_def)
  show "subprocess_calls (snd (work std_ops
      (sample_host (Some ''/usr/bin/ffmpeg'') (0, Some 2048) (0, Some 2048) (Inl DownloadError)
         (Inl PyValueError) (Inr (0, 0, 0, 0)))
      (init_config\<lparr>start_time_var := ''nan'', end_time_var := ''10''\<rparr>)
      ''/v/talk.mp4'' empty_world)) =
     [[''/usr/bin/ffmpeg'', ''-y'', ''-ss'', ''nan'', ''-i'', ''/v/talk.mp4'', ''-c'', ''copy'',
       ''/tmp/video2pdf_segments/talk.clip.mp4'']]"
    by code_simp
qed

subsection \<open>The path of the download\<close>

lemma entry_path_preferred:
  assumes "map_of ed ''requested_downloads'' = Some (PList (PDict r # others))"
    and "map_of r ''filepath'' = Some (PStr fp)"
  shows "entry_path eng (PDict ed) = Inr fp"
  using assms by (simp add: entry_path_def)

lemma entry_path_template:
  assumes "\<not> truthy (dict_get entry ''requested_downloads'')"
  shows "entry_path eng entry = prepare_filename eng entry"
  using assms by (simp add: entry_path_def split: sum.splits)

lemma entry_path_ignores_template:
  assumes "is_dict entry" and "truthy (dict_get entry ''requested_downloads'')"
  shows "entry_path (eng\<lparr>prepare_filename := pf\<rparr>) entry = entry_path eng entry"
  using assms by (simp add: entry_path_def)

text \<open>
  C8. Metadata that is not a dictionary makes the resolver fail with \<open>DownloadError\<close>.
  For a collection with a non-empty list of entries the path is that of the first entry
  alone; otherwise it is that of the metadata itself. In both cases the file path of
  the first requested-downloads record is returned when there is such a record, whatever
  the naming template would give, and the path derived from the template is returned
  only when there is no such record.
\<close>

theorem resolve_path_first_entry:
  "(\<not> is_dict info \<longrightarrow> resolve_path eng info = Inl DownloadError) \<and>
   (map_of d ''entries'' = Some (PList (e # rest)) \<longrightarrow>
      resolve_path eng (PDict d) = entry_path eng e) \<and>
   (map_of d ''entries'' = None \<or> map_of d ''entries'' = Some (PList []) \<longrightarrow>
      resolve_path eng (PDict d) = entry_path eng (PDict d)) \<and>
   (map_of ed ''requested_downloads'' = Some (PList (PDict r # others)) \<and>
    map_of r ''filepath'' = Some (PStr fp) \<longrightarrow>
      entry_path eng (PDict ed) = Inr fp) \<and>
   (\<not> truthy (dict_get entry ''requested_downloads'') \<longrightarrow>
      entry_path eng entry = prepare_filename eng entry) \<and>
   (is_dict entry \<and> truthy (dict_get entry ''requested_downloads'') \<longrightarrow>
      entry_path (eng\<lparr>prepare_filename := pf\<rparr>) entry = entry_path eng entry) \<and>
   (mkdir_p eng (output_dir a) fs = Inr fsa \<and>
    extract_info eng (filter (\<lambda>kv. snd kv \<noteq> ONone) (ydl_opts ops eng a)) (url a) fsa =
      (Inr info, fsb) \<longrightarrow>
      download_video ops eng a fs = (resolve_path eng info, fsb))"
proof (intro conjI impI)
  assume "\<not> is_dict info"
  then show "resolve_path eng info = Inl DownloadError"
    by (cases info) (simp_all add: resolve_path_def)
next
  assume "map_of d ''entries'' = Some (PList (e # rest))"
  then show "resolve_path eng (PDict d) = entry_path eng e"
    by (simp add: resolve_path_def)
next
  assume "map_of d ''entries'' = None \<or> map_of d ''entries'' = Some (PList [])"
  then show "resolve_path eng (PDict d) = entry_path eng (PDict d)"
    by (auto simp: resolve_path_def)
next
  assume "map_of ed ''requested_downloads'' = Some (PList (PDict r # others)) \<and>
    map_of r ''filepath'' = Some (PStr fp)"
  then show "entry_path eng (PDict ed) = Inr fp"
    by (simp add: entry_path_preferred)
next
  assume "\<not> truthy (dict_get entry ''requested_downloads'')"
  then show "entry_path eng entry = prepare_filename eng entry"
    by (rule entry_path_template)
next
  assume "is_dict entry \<and> truthy (dict_get entry ''requested_downloads'')"
  then show "entry_path (eng\<lparr>prepare_filename := pf\<rparr>) entry = entry_path eng entry"
    by (simp add: entry_path_ignores_template)
next
  assume "mkdir_p eng (output_dir a) fs = Inr fsa \<and>
    extract_info eng (filter (\<lambda>kv. snd kv \<noteq> ONone) (ydl_opts ops eng a)) (url a) fsa =
      (Inr info, fsb)"
  then show "download_video ops eng a fs = (resolve_path eng info, fsb)"
    by (simp add: download_video_def)
qed

theorem resolve_path_first_entry_witness:
  "resolve_path (sample_engine (Inl DownloadError))
     (PDict [(''entries'',
        PList [PDict [(''requested_downloads'', PList [PDict [(''filepath'', PStr ''/dl/a.mp4'')]]),
                      (''_filename'', PStr ''/dl/a.webm'')],
               PDict [(''requested_downloads'',
                       PList [PDict [(''filepath'', PStr ''/dl/b.mp4'')]])]])]) =
     Inr ''/dl/a.mp4'' \<and>
   resolve_path (sample_engine (Inl DownloadError))
     (PDict [(''id'', PStr ''x''), (''_filename'', PStr ''/dl/x.mp4'')]) = Inr ''/dl/x.mp4'' \<and>
   resolve_path (sample_engine (Inl DownloadError)) PNone = Inl DownloadError"
proof -
  let ?eng = "sample_engine (Inl DownloadError)"
  let ?e = "[(''requested_downloads'', PList [PDict [(''filepath'', PStr ''/dl/a.mp4'')]]),
             (''_filename'', PStr ''/dl/a.webm'')]"
  let ?rest = "[PDict [(''requested_downloads'',
                        PList [PDict [(''filepath'', PStr ''/dl/b.mp4'')]])]]"
  let ?single = "[(''id'', PStr ''x''), (''_filename'', PStr ''/dl/x.mp4'')]"
  from resolve_path_first_entry
      [where eng = ?eng and d = "[(''entries'', PList (PDict ?e # ?rest))]" and e = "PDict ?e"
        and rest = ?rest and ed = ?e and r = "[(''filepath'', PStr ''/dl/a.mp4'')]"
        and others = "[]" and fp = "''/dl/a.mp4''" and info = PNone and entry = "PDict ?single"
        and pf = "\<lambda>v. Inl PyKeyError" and a = "\<lparr>url = [], output_dir = [], cookies = None,
          quality = [], proxy = None, playlist = False, subtitles = False,
          ffmpeg_location = None\<rparr>" and fs = "\<lambda>p. None" and fsa = "\<lambda>p. None"
        and fsb = "\<lambda>p. None" and ops = std_ops]
  have "resolve_path ?eng (PDict [(''entries'', PList (PDict ?e # ?rest))]) =
      Inr ''/dl/a.mp4''"
    and "resolve_path ?eng PNone = Inl DownloadError"
    and "entry_path ?eng (PDict ?single) = prepare_filename ?eng (PDict ?single)"
    by simp_all
  moreover have "resolve_path ?eng (PDict ?single) = entry_path ?eng (PDict ?single)"
    by (simp add: resolve_path_def)
  moreover have "prepare_filename ?eng (PDict ?single) = Inr ''/dl/x.mp4''"
    by (simp add: sample_engine_def)
  ultimately show ?thesis by simp
qed

subsection \<open>The events of the stages\<close>

lemma events_of_emit [simp]:
  "events_of st (emit ev w) = events_of st w @ (if stage_of ev = st then [ev] else [])"
  by (simp add: events_of_def)

lemma events_of_files [simp]: "events_of st (w\<lparr>files := f\<rparr>) = events_of st w"
  by (simp add: events_of_def)

lemma addsI:
  assumes "\<And>w. \<exists>evs. trace (snd (m w)) = trace w @ evs \<and> (\<forall>ev \<in> set evs. stage_of ev \<in> S)"
  shows "adds S m"
  using assms by (simp add: adds_def)

lemma addsD:
  assumes "adds S m"
  obtains evs where "trace (snd (m w)) = trace w @ evs" and "\<forall>ev \<in> set evs. stage_of ev \<in> S"
  using assms unfolding adds_def by blast

lemma adds_mono: "adds S m \<Longrightarrow> S \<subseteq> T \<Longrightarrow> adds T m"
  unfolding adds_def by blast

lemma adds_keeps:
  assumes "adds S m" and "st \<notin> S"
  shows "events_of st (snd (m w)) = events_of st w"
proof -
  from assms(1) obtain evs where t: "trace (snd (m w)) = trace w @ evs"
    and s: "\<forall>ev \<in> set evs. stage_of ev \<in> S"
    by (rule addsD)
  from s assms(2) have "filter (\<lambda>ev. stage_of ev = st) evs = []"
    by (auto simp: filter_empty_conv)
  with t show ?thesis by (simp add: events_of_def)
qed

lemma adds_lift_pure: "adds S (lift_pure r)"
  by (simp add: adds_def lift_pure_def)

lemma adds_sbind_gen:
  assumes m: "adds S m" and f: "\<And>x w'. m w = (Inr x, w') \<Longrightarrow> adds S (f x)"
  shows "\<exists>evs. trace (snd (sbind m f w)) = trace w @ evs \<and> (\<forall>ev \<in> set evs. stage_of ev \<in> S)"
proof -
  from m obtain evs where t: "trace (snd (m w)) = trace w @ evs"
    and s: "\<forall>ev \<in> set evs. stage_of ev \<in> S"
    by (rule addsD)
  show ?thesis
  proof (cases "m w")
    case (Pair r w')
    show ?thesis
    proof (cases r)
      case (Inl e)
      with Pair t s show ?thesis by (auto simp: sbind_def)
    next
      case (Inr x)
      with Pair have "adds S (f x)" by (intro f) simp
      then obtain evs' where t': "trace (snd (f x w')) = trace w' @ evs'"
        and s': "\<forall>ev \<in> set evs'. stage_of ev \<in> S"
        by (rule addsD)
      from Pair Inr t t' have "trace (snd (sbind m f w)) = trace w @ (evs @ evs')"
        by (simp add: sbind_def)
      moreover from s s' have "\<forall>ev \<in> set (evs @ evs'). stage_of ev \<in> S" by auto
      ultimately show ?thesis by blast
    qed
  qed
qed

lemma adds_sbind:
  assumes "adds S m" and "\<And>x. adds S (f x)"
  shows "adds S (sbind m f)"
  by (rule addsI, rule adds_sbind_gen) (use assms in auto)

lemma adds_sbind_pure:
  assumes "\<And>x. r = Inr x \<Longrightarrow> adds S (f x)"
  shows "adds S (sbind (lift_pure r) f)"
  by (rule addsI, rule adds_sbind_gen [OF adds_lift_pure]) (use assms in \<open>auto simp: lift_pure_def\<close>)

lemma adds_id: "adds S (\<lambda>w. (r, w))"
  by (simp add: adds_def)

lemma adds_trim_video: "adds {STrim} (trim_video_with_ffmpeg ops h src dst s e)"
  by (rule addsI)
    (auto simp: trim_video_with_ffmpeg_def run_subprocess_eq Let_def split: option.splits)

lemma adds_resolve_input: "adds {SDownload} (resolve_input ops h cfg inp)"
  by (rule addsI) (auto simp: resolve_input_def Let_def split: prod.splits sum.splits)

lemma resolve_input_local: "\<not> is_url inp \<Longrightarrow> resolve_input ops h cfg inp = (\<lambda>w. (Inr inp, w))"
  by (rule ext) (simp add: resolve_input_def)

lemma adds_trim_stage: "adds {STrim} (trim_stage ops h p s e)"
proof (rule addsI)
  fix w :: "'a world"
  show "\<exists>evs. trace (snd (trim_stage ops h p s e w)) = trace w @ evs \<and>
      (\<forall>ev \<in> set evs. stage_of ev \<in> {STrim})"
  proof (cases "(s \<noteq> None \<or> e \<noteq> None) \<and> \<not> range_invalid ops s e")
    case False
    then show ?thesis by (auto simp: trim_stage_def)
  next
    case True
    let ?dir = "path_join h (if path_exists (files w) (path_parent h p) then path_parent h p
        else gettempdir h) ''video2pdf_segments''"
    show ?thesis
    proof (cases "mkdirs h ?dir (files w)")
      case (Inl err)
      with True show ?thesis by (auto simp: trim_stage_def Let_def)
    next
      case (Inr fs1)
      let ?clip = "path_join h ?dir (path_stem h p @ ''.clip.mp4'')"
      let ?w1 = "emit (CallTrim p ?clip s e) (emit (PrintTrimStart s e) (w\<lparr>files := fs1\<rparr>))"
      from adds_trim_video [of ops h p ?clip s e]
      obtain evs where t: "trace (snd (trim_video_with_ffmpeg ops h p ?clip s e ?w1)) =
          trace ?w1 @ evs" and st: "\<forall>ev \<in> set evs. stage_of ev \<in> {STrim}"
        by (rule addsD)
      show ?thesis
      proof (cases "trim_video_with_ffmpeg ops h p ?clip s e ?w1")
        case (Pair r w2)
        with t have t2: "trace w2 = trace w @ [PrintTrimStart s e, CallTrim p ?clip s e] @ evs"
          by simp
        from True Inr Pair have "snd (trim_stage ops h p s e w) =
            (case r of Inl err \<Rightarrow> w2 | Inr u \<Rightarrow> emit (PrintTrimDone ?clip) w2)"
          by (auto simp: trim_stage_def Let_def split: sum.splits)
        with t2 st show ?thesis
          by (cases r) auto
      qed
    qed
  qed
qed

lemma trim_stage_skipped:
  "range_invalid ops s e \<or> (s = None \<and> e = None) \<Longrightarrow> adds {} (trim_stage ops h p s e)"
  by (rule addsI) (auto simp: trim_stage_def range_invalid_def split: option.splits)

lemma adds_probe_stage: "adds {SProbe} (probe_stage h p)"
  by (rule addsI)
    (auto simp: probe_stage_def probe_body_def Let_def split: sum.splits prod.splits)

lemma adds_manual_stage: "adds {SSelect} (manual_stage h cfg p)"
  by (rule addsI)
    (auto simp: manual_stage_def manual_body_def Let_def split: sum.splits prod.splits)

lemma adds_extract_stage: "adds {SExtract} (extract_stage h args)"
  by (rule addsI) (auto simp: extract_stage_def split: sum.splits prod.splits)

lemma adds_finish: "adds {SProbe, SSelect, SExtract} (finish ops h cfg p)"
  unfolding finish_def
  by (intro adds_sbind adds_sbind_pure adds_mono [OF adds_probe_stage]
      adds_mono [OF adds_manual_stage] adds_mono [OF adds_extract_stage]) simp_all

lemma adds_acquire: "adds {SDownload, STrim} (acquire ops h cfg inp)"
  unfolding acquire_def
  by (intro adds_sbind adds_sbind_pure adds_mono [OF adds_resolve_input]
      adds_mono [OF adds_trim_stage]) simp_all

lemma adds_work_body:
  "adds {SDownload, STrim, SProbe, SSelect, SExtract} (work_body ops h cfg inp)"
  unfolding work_body_def
  by (intro adds_sbind adds_mono [OF adds_acquire] adds_mono [OF adds_finish]) simp_all

lemma work_keeps:
  assumes "adds S (work_body ops h cfg inp)" and "st \<notin> S" and "st \<noteq> SReport"
  shows "events_of st (snd (work ops h cfg inp w)) = events_of st w"
proof -
  from assms(1,2) have "events_of st (snd (work_body ops h cfg inp w)) = events_of st w"
    by (rule adds_keeps)
  with assms(3) show ?thesis
    by (auto simp: work_def split: prod.splits sum.splits)
qed

subsection \<open>The run\<close>

lemma is_url_iff:
  "is_url inp \<longleftrightarrow>
     (\<exists>rest. py_lower inp = ''http://'' @ rest \<or> py_lower inp = ''https://'' @ rest)"
proof -
  have a: "py_startswith s p \<longleftrightarrow> (\<exists>rest. s = p @ rest)" for s p :: string
    unfolding py_startswith_def by (metis append_eq_conv_conj append_take_drop_id)
  show ?thesis
    unfolding is_url_def a by blast
qed

lemma acquire_local_invalid:
  assumes "fst (resolve_input ops h cfg inp w) = Inr p"
    and "parse_time_to_seconds ops (start_time_var cfg) = Inr (Some s)"
    and "parse_time_to_seconds ops (end_time_var cfg) = Inr (Some e)"
    and "fle ops e s"
  shows "acquire ops h cfg inp w = (Inl InvalidRange, snd (resolve_input ops h cfg inp w))"
  using assms
  by (cases "resolve_input ops h cfg inp w")
    (simp add: acquire_def sbind_def lift_pure_def parse_bounds_def trim_stage_def
      range_invalid_def)

lemma acquire_skips_trim:
  assumes "\<not> (\<exists>s e. parse_bounds ops cfg = Inr (s, e) \<and> (s \<noteq> None \<or> e \<noteq> None) \<and>
      \<not> range_invalid ops s e)"
  shows "adds {SDownload} (acquire ops h cfg inp)"
  unfolding acquire_def
proof (rule adds_sbind [OF adds_resolve_input], rule adds_sbind_pure)
  fix p :: path and b :: "'a option \<times> 'a option"
  assume "parse_bounds ops cfg = Inr b"
  with assms have "range_invalid ops (fst b) (snd b) \<or> (fst b = None \<and> snd b = None)"
    by (cases b) auto
  then have "adds {} (trim_stage ops h p (fst b) (snd b))"
    by (rule trim_stage_skipped)
  then show "adds {SDownload} (trim_stage ops h p (fst b) (snd b))"
    by (rule adds_mono) simp
qed

lemma work_skips_trim:
  assumes "\<not> (\<exists>s e. parse_bounds ops cfg = Inr (s, e) \<and> (s \<noteq> None \<or> e \<noteq> None) \<and>
      \<not> range_invalid ops s e)"
  shows "events_of STrim (snd (work ops h cfg inp w)) = events_of STrim w"
proof (rule work_keeps)
  show "adds {SDownload, SProbe, SSelect, SExtract} (work_body ops h cfg inp)"
    unfolding work_body_def
    by (intro adds_sbind adds_mono [OF acquire_skips_trim [OF assms]]
        adds_mono [OF adds_finish]) simp_all
qed simp_all

text \<open>
  C2. Once the source is resolved and both bounds are parsed, an end that is not
  greater than the start makes the run fail with \<open>InvalidRange\<close>, and the run adds no
  event of the trim stage: the trimmer is not invoked and no subprocess is run, and the
  disk is as the resolution left it. Conversely, a run that adds an event of the trim
  stage has parsed bounds of which one at least is present and which are not both
  present with the end not greater than the start.
\<close>

theorem invalid_range_before_trim:
  "(fst (resolve_input ops h cfg inp w) = Inr p \<and>
    parse_time_to_seconds ops (start_time_var cfg) = Inr (Some s) \<and>
    parse_time_to_seconds ops (end_time_var cfg) = Inr (Some e) \<and> fle ops e s \<longrightarrow>
      fst (work ops h cfg inp w) = Inl InvalidRange \<and>
      events_of STrim (snd (work ops h cfg inp w)) = events_of STrim w \<and>
      files (snd (work ops h cfg inp w)) = files (snd (resolve_input ops h cfg inp w))) \<and>
   (events_of STrim (snd (work ops h cfg inp w)) \<noteq> events_of STrim w \<longrightarrow>
      (\<exists>s e. parse_bounds ops cfg = Inr (s, e) \<and> (s \<noteq> None \<or> e \<noteq> None) \<and>
         \<not> (\<exists>sv ev. s = Some sv \<and> e = Some ev \<and> fle ops ev sv)))"
proof (intro conjI impI)
  assume a: "fst (resolve_input ops h cfg inp w) = Inr p \<and>
    parse_time_to_seconds ops (start_time_var cfg) = Inr (Some s) \<and>
    parse_time_to_seconds ops (end_time_var cfg) = Inr (Some e) \<and> fle ops e s"
  then have acq: "acquire ops h cfg inp w = (Inl InvalidRange, snd (resolve_input ops h cfg inp w))"
    by (auto intro: acquire_local_invalid)
  then show "fst (work ops h cfg inp w) = Inl InvalidRange"
    by (simp add: work_def work_body_def sbind_def)
  from acq show "files (snd (work ops h cfg inp w)) = files (snd (resolve_input ops h cfg inp w))"
    by (simp add: work_def work_body_def sbind_def)
  from a have "parse_bounds ops cfg = Inr (Some s, Some e)"
    by (simp add: parse_bounds_def)
  with a have "\<not> (\<exists>s e. parse_bounds ops cfg = Inr (s, e) \<and> (s \<noteq> None \<or> e \<noteq> None) \<and>
      \<not> range_invalid ops s e)"
    by (simp add: range_invalid_def)
  then show "events_of STrim (snd (work ops h cfg inp w)) = events_of STrim w"
    by (rule work_skips_trim)
next
  assume "events_of STrim (snd (work ops h cfg inp w)) \<noteq> events_of STrim w"
  with work_skips_trim [of ops cfg h inp w]
  obtain s e where "parse_bounds ops cfg = Inr (s, e)" and "s \<noteq> None \<or> e \<noteq> None"
    and "\<not> range_invalid ops s e"
    by blast
  then show "\<exists>s e. parse_bounds ops cfg = Inr (s, e) \<and> (s \<noteq> None \<or> e \<noteq> None) \<and>
         \<not> (\<exists>sv ev. s = Some sv \<and> e = Some ev \<and> fle ops ev sv)"
    by (auto simp: range_invalid_def)
qed

lemma work_local_no_download:
  assumes "\<not> is_url inp"
  shows "events_of SDownload (snd (work ops h cfg inp w)) = events_of SDownload w"
proof (rule work_keeps)
  have "adds {STrim} (acquire ops h cfg inp)"
    unfolding acquire_def resolve_input_local [OF assms]
    by (rule adds_sbind [OF adds_id], rule adds_sbind_pure, rule adds_trim_stage)
  then show "adds {STrim, SProbe, SSelect, SExtract} (work_body ops h cfg inp)"
    unfolding work_body_def
    by (intro adds_sbind adds_mono [OF adds_finish]) (auto intro: adds_mono)
qed simp_all

lemma work_body_extends:
  "\<exists>evs. trace (snd (work_body ops h cfg inp w)) = trace (snd (resolve_input ops h cfg inp w)) @ evs"
proof (cases "resolve_input ops h cfg inp w")
  case (Pair r w1)
  show ?thesis
  proof (cases r)
    case (Inl e)
    with Pair show ?thesis
      by (simp add: work_body_def acquire_def sbind_def)
  next
    case (Inr p)
    let ?rest = "\<lambda>w. sbind (sbind (lift_pure (parse_bounds ops cfg))
        (\<lambda>bounds. trim_stage ops h p (fst bounds) (snd bounds))) (finish ops h cfg) w"
    have "adds UNIV ?rest"
      by (intro adds_sbind adds_sbind_pure adds_mono [OF adds_trim_stage]
          adds_mono [OF adds_finish]) simp_all
    then obtain evs where "trace (snd (?rest w1)) = trace w1 @ evs"
      by (rule addsD)
    moreover from Pair Inr have "work_body ops h cfg inp w = ?rest w1"
      by (simp add: work_body_def acquire_def sbind_def split: prod.splits sum.splits)
    ultimately show ?thesis using Pair by auto
  qed
qed

lemma work_url_downloads:
  assumes "is_url inp"
  shows "\<exists>d. CallDownload inp d \<in> set (trace (snd (work ops h cfg inp w)))"
proof -
  from assms have "\<exists>d. CallDownload inp d \<in> set (trace (snd (resolve_input ops h cfg inp w)))"
    by (auto simp: resolve_input_def Let_def split: prod.splits sum.splits)
  then obtain d where "CallDownload inp d \<in> set (trace (snd (resolve_input ops h cfg inp w)))" ..
  moreover obtain evs where
    "trace (snd (work_body ops h cfg inp w)) = trace (snd (resolve_input ops h cfg inp w)) @ evs"
    using work_body_extends by blast
  ultimately have "CallDownload inp d \<in> set (trace (snd (work_body ops h cfg inp w)))"
    by simp
  then have "CallDownload inp d \<in> set (trace (snd (work ops h cfg inp w)))"
    by (auto simp: work_def split: prod.splits sum.splits)
  then show ?thesis ..
qed

text \<open>
  C10. The input is taken for a network address exactly when its lower-cased text
  starts with \<open>http://\<close> or \<open>https://\<close>. Any other input is used as the local path as
  it is, and the run adds no event of the download stage; an input that is a network
  address is handed to the download.
\<close>

theorem url_classification:
  "(is_url inp \<longleftrightarrow>
      (\<exists>rest. py_lower inp = ''http://'' @ rest \<or> py_lower inp = ''https://'' @ rest)) \<and>
   (\<not> is_url inp \<longrightarrow>
      resolve_input ops h cfg inp w = (Inr inp, w) \<and>
      events_of SDownload (snd (work ops h cfg inp w)) = events_of SDownload w) \<and>
   (is_url inp \<longrightarrow> (\<exists>d. CallDownload inp d \<in> set (trace (snd (work ops h cfg inp w)))))"
  using is_url_iff [of inp] work_local_no_download [of inp ops h cfg w]
    work_url_downloads [of inp ops h cfg w]
  by (auto simp: resolve_input_local)

lemma probe_stage_total:
  "fst (probe_stage h p w) = Inr ()" "files (snd (probe_stage h p w)) = files w"
  by (auto simp: probe_stage_def probe_body_def Let_def split: sum.splits prod.splits)

lemma probe_stage_raises: "cv2_probe h p (files w) = Inl err \<Longrightarrow> probe_stage h p w = (Inr (), w)"
  by (simp add: probe_stage_def probe_body_def)

lemma manual_stage_files: "files (snd (manual_stage h cfg p w)) = files w"
  by (auto simp: manual_stage_def manual_body_def Let_def split: sum.splits prod.splits)

lemma manual_stage_fails:
  assumes "manual_select_var cfg" and "selection_fails h p (files w)"
  shows "fst (manual_stage h cfg p w) = Inr None"
  using assms
  by (auto simp: manual_stage_def manual_body_def selection_fails_def
      split: sum.splits prod.splits if_splits)

lemma manual_stage_logs:
  assumes "manual_select_var cfg" and "selection_fails h p (files w)"
  shows "\<exists>ev evs. trace (snd (manual_stage h cfg p w)) = trace w @ evs @ [ev] \<and>
    (ev = LogRoiCancelled \<or> (\<exists>err. ev = LogRoiFailed err))"
  using assms
  by (auto simp: manual_stage_def manual_body_def selection_fails_def
      split: sum.splits prod.splits if_splits)

lemma extract_stage_calls: "CallExtract args \<in> set (trace (snd (extract_stage h args w)))"
  by (auto simp: extract_stage_def split: sum.splits prod.splits)

lemma finish_reaches_extraction:
  assumes "output_paths h cfg p = Inr outs" and "manual_select_var cfg"
    and "selection_fails h p (files w)"
    and "extract_options ops h cfg p (fst outs) (snd outs) None = Inr args"
  shows "CallExtract args \<in> set (trace (snd (finish ops h cfg p w)))"
proof -
  obtain w1 where pr: "probe_stage h p w = (Inr (), w1)" and f1: "files w1 = files w"
    using probe_stage_total [of h p w] by (cases "probe_stage h p w") auto
  from assms(3) f1 have "selection_fails h p (files w1)" by simp
  with assms(2) have "fst (manual_stage h cfg p w1) = Inr None"
    by (rule manual_stage_fails)
  then obtain w2 where ma: "manual_stage h cfg p w1 = (Inr None, w2)"
    by (cases "manual_stage h cfg p w1") auto
  from pr ma assms(1,4) have "finish ops h cfg p w = extract_stage h args w2"
    by (simp add: finish_def sbind_def lift_pure_def)
  then show ?thesis by (simp add: extract_stage_calls)
qed

lemma extract_options_crop:
  assumes "extract_options ops h cfg p o1 o2 m = Inr args"
    and "parse_crop h (if py_strip (crop_var cfg) \<noteq> [] then Some (py_strip (crop_var cfg))
      else None) = Inr c"
  shows "crop_region args = (case m of None \<Rightarrow> c | Some r \<Rightarrow> Some r)"
    and "auto_crop args = (if m \<noteq> None then False else auto_crop_var cfg)"
  using assms
  by (auto simp: extract_options_def ebind_def split: sum.splits)

text \<open>
  C7, as amended. The probe never raises and leaves the disk alone; when a call of the
  probe raises, nothing is logged and the world is as before. A selection by hand that
  is cancelled, has no area or raises leaves the manual crop absent, changes nothing
  on disk and ends with one log line that says so. The run then goes on: when the
  output paths and the options are well-formed the extraction is called, with the crop
  region of the explicit crop field (absent when that field is empty).
\<close>

theorem probe_and_selection_never_abort:
  "fst (probe_stage h p w) = Inr () \<and> files (snd (probe_stage h p w)) = files w \<and>
   (cv2_probe h p (files w) = Inl err \<longrightarrow> snd (probe_stage h p w) = w) \<and>
   (manual_select_var cfg \<and> selection_fails h p (files w) \<longrightarrow>
      fst (manual_stage h cfg p w) = Inr None \<and>
      files (snd (manual_stage h cfg p w)) = files w \<and>
      (\<exists>ev evs. trace (snd (manual_stage h cfg p w)) = trace w @ evs @ [ev] \<and>
         (ev = LogRoiCancelled \<or> (\<exists>err. ev = LogRoiFailed err))) \<and>
      events_of SExtract (snd (manual_stage h cfg p w)) = events_of SExtract w \<and>
      events_of SReport (snd (manual_stage h cfg p w)) = events_of SReport w) \<and>
   (acquire ops h cfg inp w = (Inr p, wa) \<and> output_paths h cfg p = Inr outs \<and>
    manual_select_var cfg \<and> selection_fails h p (files wa) \<and>
    extract_options ops h cfg p (fst outs) (snd outs) None = Inr args \<longrightarrow>
      CallExtract args \<in> set (trace (snd (work ops h cfg inp w))) \<and>
      (parse_crop h (if py_strip (crop_var cfg) \<noteq> [] then Some (py_strip (crop_var cfg))
         else None) = Inr c \<longrightarrow> crop_region args = c))"
proof (intro conjI impI)
  assume a: "acquire ops h cfg inp w = (Inr p, wa) \<and> output_paths h cfg p = Inr outs \<and>
    manual_select_var cfg \<and> selection_fails h p (files wa) \<and>
    extract_options ops h cfg p (fst outs) (snd outs) None = Inr args"
  then have "CallExtract args \<in> set (trace (snd (finish ops h cfg p wa)))"
    by (auto intro: finish_reaches_extraction)
  moreover from a have "work_body ops h cfg inp w = finish ops h cfg p wa"
    by (simp add: work_body_def sbind_def)
  ultimately show "CallExtract args \<in> set (trace (snd (work ops h cfg inp w)))"
    by (auto simp: work_def split: prod.splits sum.splits)
  assume "parse_crop h (if py_strip (crop_var cfg) \<noteq> [] then Some (py_strip (crop_var cfg))
         else None) = Inr c"
  with a show "crop_region args = c"
    using extract_options_crop(1) [of ops h cfg p "fst outs" "snd outs" None args c] by simp
qed (use manual_stage_logs [of cfg h p w] in
    \<open>simp_all add: probe_stage_total probe_stage_raises manual_stage_fails manual_stage_files
      adds_keeps [OF adds_manual_stage]\<close>)

theorem invalid_range_before_trim_witness:
  "fst (work std_ops
      (sample_host (Some ''/usr/bin/ffmpeg'') (0, Some 2048) (0, Some 2048) (Inl DownloadError)
         (Inl PyValueError) (Inr (0, 0, 0, 0)))
      (init_config\<lparr>start_time_var := ''90'', end_time_var := ''01:30''\<rparr>)
      ''/v/talk.mp4'' empty_world) = Inl InvalidRange \<and>
   events_of STrim (snd (work std_ops
      (sample_host (Some ''/usr/bin/ffmpeg'') (0, Some 2048) (0, Some 2048) (Inl DownloadError)
         (Inl PyValueError) (Inr (0, 0, 0, 0)))
      (init_config\<lparr>start_time_var := ''90'', end_time_var := ''01:30''\<rparr>)
      ''/v/talk.mp4'' empty_world)) = [] \<and>
   (\<exists>s e. parse_bounds std_ops (init_config\<lparr>start_time_var := ''5''\<rparr>) = Inr (s, e) \<and>
      (s \<noteq> None \<or> e \<noteq> None) \<and>
      \<not> (\<exists>sv ev. s = Some sv \<and> e = Some ev \<and> fle std_ops ev sv))"
proof -
  let ?h = "sample_host (Some ''/usr/bin/ffmpeg'') (0, Some 2048) (0, Some 2048)
      (Inl DownloadError) (Inl PyValueError) (Inr (0, 0, 0, 0))"
  let ?cfg = "init_config\<lparr>start_time_var := ''90'', end_time_var := ''01:30''\<rparr>"
  let ?ok = "init_config\<lparr>start_time_var := ''5''\<rparr>"
  have u: "\<not> is_url ''/v/talk.mp4''" by code_simp
  then have r: "fst (resolve_input std_ops ?h ?cfg ''/v/talk.mp4'' empty_world) = Inr ''/v/talk.mp4''"
    by (simp add: resolve_input_def)
  have s: "parse_time_to_seconds std_ops (start_time_var ?cfg) = Inr (Some (Fin 90))"
    by code_simp
  have e: "parse_time_to_seconds std_ops (end_time_var ?cfg) = Inr (Some (Fin 90))"
    by code_simp
  have l: "fle std_ops (Fin 90) (Fin 90)" by (simp add: std_ops_def)
  have n: "events_of STrim empty_world = []" by (simp add: events_of_def empty_world_def)
  from invalid_range_before_trim [where ops = std_ops and h = ?h and cfg = ?cfg
      and inp = "''/v/talk.mp4''" and w = empty_world and p = "''/v/talk.mp4''"
      and s = "Fin 90" and e = "Fin 90"] r s e l n
  have a: "fst (work std_ops ?h ?cfg ''/v/talk.mp4'' empty_world) = Inl InvalidRange \<and>
    events_of STrim (snd (work std_ops ?h ?cfg ''/v/talk.mp4'' empty_world)) = []"
    by simp
  have t: "events_of STrim (snd (work std_ops ?h ?ok ''/v/talk.mp4'' empty_world)) \<noteq>
      events_of STrim empty_world"
    by code_simp
  from invalid_range_before_trim [where ops = std_ops and h = ?h and cfg = ?ok
      and inp = "''/v/talk.mp4''" and w = empty_world, THEN conjunct2] t
  have "\<exists>s e. parse_bounds std_ops ?ok = Inr (s, e) \<and> (s \<noteq> None \<or> e \<noteq> None) \<and>
      \<not> (\<exists>sv ev. s = Some sv \<and> e = Some ev \<and> fle std_ops ev sv)"
    by blast
  with a show ?thesis by blast
qed

theorem url_classification_witness:
  "\<not> is_url ''ftp://host/v.mp4'' \<and> \<not> is_url ''example.com/v.mp4'' \<and>
   is_url ''HTTPS://Example.com/v'' \<and> is_url ''http://example.com/v'' \<and>
   resolve_input std_ops
      (sample_host (Some ''/usr/bin/ffmpeg'') (0, Some 2048) (0, Some 2048) (Inl DownloadError)
         (Inl PyValueError) (Inr (0, 0, 0, 0)))
      init_config ''ftp://host/v.mp4'' empty_world = (Inr ''ftp://host/v.mp4'', empty_world) \<and>
   events_of SDownload (snd (work std_ops
      (sample_host (Some ''/usr/bin/ffmpeg'') (0, Some 2048) (0, Some 2048) (Inl DownloadError)
         (Inl PyValueError) (Inr (0, 0, 0, 0)))
      init_config ''ftp://host/v.mp4'' empty_world)) = [] \<and>
   (\<exists>d. CallDownload ''HTTPS://Example.com/v'' d \<in> set (trace (snd (work std_ops
      (sample_host (Some ''/usr/bin/ffmpeg'') (0, Some 2048) (0, Some 2048) (Inl DownloadError)
         (Inl PyValueError) (Inr (0, 0, 0, 0)))
      init_config ''HTTPS://Example.com/v'' empty_world))))"
proof -
  let ?h = "sample_host (Some ''/usr/bin/ffmpeg'') (0, Some 2048) (0, Some 2048)
      (Inl DownloadError) (Inl PyValueError) (Inr (0, 0, 0, 0))"
  have u: "\<not> is_url ''ftp://host/v.mp4''" "\<not> is_url ''example.com/v.mp4''"
    "is_url ''HTTPS://Example.com/v''" "is_url ''http://example.com/v''"
    by code_simp+
  have n: "events_of SDownload empty_world = []" by (simp add: events_of_def empty_world_def)
  from url_classification [where ops = std_ops and h = ?h and cfg = init_config
      and inp = "''ftp://host/v.mp4''" and w = empty_world] u n
  have a: "resolve_input std_ops ?h init_config ''ftp://host/v.mp4'' empty_world =
      (Inr ''ftp://host/v.mp4'', empty_world) \<and>
    events_of SDownload (snd (work std_ops ?h init_config ''ftp://host/v.mp4'' empty_world)) = []"
    by simp
  from url_classification [where ops = std_ops and h = ?h and cfg = init_config
      and inp = "''HTTPS://Example.com/v''" and w = empty_world, THEN conjunct2,
      THEN conjunct2] u(3)
  have "\<exists>d. CallDownload ''HTTPS://Example.com/v'' d \<in> set (trace (snd (work std_ops ?h
      init_config ''HTTPS://Example.com/v'' empty_world)))"
    by blast
  with a u show ?thesis by blast
qed

theorem probe_and_selection_never_abort_witness:
  "fst (probe_stage
      (sample_host (Some ''/usr/bin/ffmpeg'') (0, Some 2048) (0, Some 2048) (Inl DownloadError)
         (Inl (ExternalError ''cv2'')) (Inr (0, 0, 0, 0)))
      ''/v/talk.mp4'' empty_world) = Inr () \<and>
   snd (probe_stage
      (sample_host (Some ''/usr/bin/ffmpeg'') (0, Some 2048) (0, Some 2048) (Inl DownloadError)
         (Inl (ExternalError ''cv2'')) (Inr (0, 0, 0, 0)))
      ''/v/talk.mp4'' empty_world) = empty_world \<and>
   fst (manual_stage
      (sample_host (Some ''/usr/bin/ffmpeg'') (0, Some 2048) (0, Some 2048) (Inl DownloadError)
         (Inl (ExternalError ''cv2'')) (Inr (0, 0, 0, 0)))
      (init_config\<lparr>auto_crop_var := False, manual_select_var := True\<rparr>)
      ''/v/talk.mp4'' empty_world) = Inr None \<and>
   CallExtract
     \<lparr>video_path = ''/v/talk.mp4'', output_pdf = ''/v/talk.pdf'',
      frames_dir = ''/v/slides_phash'', sample_seconds = Fin (1 / 2), threshold = 10,
      crop_region = None, scale_width = None, a4 = False, max_pages = None,
      auto_trim = True, auto_trim_ratio = Fin (49 / 50), auto_trim_pad = 6,
      auto_trim_sides = ''tb'', auto_crop = False, auto_crop_pad = 6,
      auto_crop_min_area_ratio = Fin (1 / 20)\<rparr>
     \<in> set (trace (snd (work std_ops
      (sample_host (Some ''/usr/bin/ffmpeg'') (0, Some 2048) (0, Some 2048) (Inl DownloadError)
         (Inl (ExternalError ''cv2'')) (Inr (0, 0, 0, 0)))
      (init_config\<lparr>auto_crop_var := False, manual_select_var := True\<rparr>)
      ''/v/talk.mp4'' empty_world)))"
proof -
  let ?h = "sample_host (Some ''/usr/bin/ffmpeg'') (0, Some 2048) (0, Some 2048)
      (Inl DownloadError) (Inl (ExternalError ''cv2'')) (Inr (0, 0, 0, 0))"
  let ?cfg = "init_config\<lparr>auto_crop_var := False, manual_select_var := True\<rparr>"
  let ?args = "\<lparr>video_path = ''/v/talk.mp4'', output_pdf = ''/v/talk.pdf'',
      frames_dir = ''/v/slides_phash'', sample_seconds = Fin (1 / 2), threshold = 10,
      crop_region = None, scale_width = None, a4 = False, max_pages = None,
      auto_trim = True, auto_trim_ratio = Fin (49 / 50), auto_trim_pad = 6,
      auto_trim_sides = ''tb'', auto_crop = False, auto_crop_pad = 6,
      auto_crop_min_area_ratio = Fin (1 / 20)\<rparr>"
  let ?wa = "snd (acquire std_ops ?h ?cfg ''/v/talk.mp4'' empty_world)"
  have p: "cv2_probe ?h ''/v/talk.mp4'' (files empty_world) = Inl (ExternalError ''cv2'')"
    by (simp add: sample_host_def)
  have m: "manual_select_var ?cfg" by simp
  have f: "selection_fails ?h ''/v/talk.mp4'' fs" for fs
    by (simp add: selection_fails_def sample_host_def)
  have "fst (acquire std_ops ?h ?cfg ''/v/talk.mp4'' empty_world) = Inr ''/v/talk.mp4''"
    by code_simp
  then have a: "acquire std_ops ?h ?cfg ''/v/talk.mp4'' empty_world = (Inr ''/v/talk.mp4'', ?wa)"
    by (metis prod.collapse)
  have o: "output_paths ?h ?cfg ''/v/talk.mp4'' = Inr (''/v/talk.pdf'', ''/v/slides_phash'')"
    by code_simp
  have x: "extract_options std_ops ?h ?cfg ''/v/talk.mp4'' ''/v/talk.pdf'' ''/v/slides_phash''
      None = Inr ?args"
    by code_simp
  note t = probe_and_selection_never_abort [where h = ?h and p = "''/v/talk.mp4''"
      and cfg = ?cfg and err = "ExternalError ''cv2''" and ops = std_ops
      and inp = "''/v/talk.mp4''" and wa = ?wa
      and outs = "(''/v/talk.pdf'', ''/v/slides_phash'')" and args = ?args and c = None]
  from t [where w = empty_world] p m f
  have "fst (probe_stage ?h ''/v/talk.mp4'' empty_world) = Inr () \<and>
    snd (probe_stage ?h ''/v/talk.mp4'' empty_world) = empty_world \<and>
    fst (manual_stage ?h ?cfg ''/v/talk.mp4'' empty_world) = Inr None"
    by simp
  moreover from t [where w = empty_world] a o x m f
  have "CallExtract ?args \<in> set (trace (snd (work std_ops ?h ?cfg ''/v/talk.mp4'' empty_world)))"
    by simp
  ultimately show ?thesis by blast
qed

text \<open>
  The claim as stated says that a cancelled selection leaves the crop absent. With
  \<open>10,20,300,400\<close> in the crop field and the selection cancelled, the extraction is
  called with that region: lines 411-413 replace the crop of the field only when a
  region was drawn.
\<close>

theorem cancelled_selection_keeps_field_crop_counterexample:
  "extract_calls (snd (work std_ops
      (sample_host (Some ''/usr/bin/ffmpeg'') (0, Some 2048) (0, Some 2048) (Inl DownloadError)
         (Inl PyValueError) (Inr (0, 0, 0, 0)))
      (init_config\<lparr>crop_var := ''10,20,300,400'', auto_crop_var := False,
         manual_select_var := True\<rparr>)
      ''/v/talk.mp4'' empty_world)) = [(Some (10, 20, 300, 400), False)]"
  by code_simp

subsection \<open>The check boxes\<close>

lemma click_auto_crop_inv: "\<not> (auto_crop_var (click_auto_crop c) \<and> manual_select_var (click_auto_crop c))"
  by (simp add: click_auto_crop_def on_toggle_auto_crop_def)

lemma click_manual_select_inv:
  "\<not> (auto_crop_var (click_manual_select c) \<and> manual_select_var (click_manual_select c))"
  by (simp add: click_manual_select_def on_toggle_manual_select_def)

lemma reachable_config_exclusive:
  "reachable_config c \<Longrightarrow> \<not> (auto_crop_var c \<and> manual_select_var c)"
proof (induction rule: reachable_config.induct)
  case rc_init
  show ?case by (simp add: init_config_def)
next
  case (rc_auto c)
  show ?case by (rule click_auto_crop_inv)
next
  case (rc_manual c)
  show ?case by (rule click_manual_select_inv)
next
  case (rc_edit c c')
  then show ?case by simp
qed

lemma extract_options_manual:
  assumes "extract_options ops h cfg p o1 o2 (Some r) = Inr args"
  shows "\<not> auto_crop args \<and> crop_region args = Some r"
  using assms by (auto simp: extract_options_def ebind_def split: sum.splits)

text \<open>
  C6. In every state of the two check boxes that clicks can reach, auto-crop and manual
  selection are not both on: switching auto-crop on switches manual selection off, and
  switching manual selection on switches auto-crop off. And when a region was drawn by
  hand, the extraction is called with auto-crop off and with that region.
\<close>

theorem crop_modes_exclusive:
  "(reachable_config c \<longrightarrow> \<not> (auto_crop_var c \<and> manual_select_var c)) \<and>
   (\<not> auto_crop_var c \<longrightarrow>
      auto_crop_var (click_auto_crop c) \<and> \<not> manual_select_var (click_auto_crop c)) \<and>
   (\<not> manual_select_var c \<longrightarrow>
      manual_select_var (click_manual_select c) \<and> \<not> auto_crop_var (click_manual_select c)) \<and>
   (extract_options ops h cfg p out_pdf out_dir (Some r) = Inr args \<longrightarrow>
      \<not> auto_crop args \<and> crop_region args = Some r)"
  using reachable_config_exclusive [of c] extract_options_manual [of ops h cfg p out_pdf out_dir r args]
  by (auto simp: click_auto_crop_def on_toggle_auto_crop_def click_manual_select_def
      on_toggle_manual_select_def)

theorem crop_modes_exclusive_witness:
  "manual_select_var (click_manual_select init_config) \<and>
   \<not> auto_crop_var (click_manual_select init_config) \<and>
   auto_crop_var (click_auto_crop (click_manual_select init_config)) \<and>
   \<not> manual_select_var (click_auto_crop (click_manual_select init_config)) \<and>
   \<not> (auto_crop_var (click_auto_crop (click_manual_select (click_auto_crop init_config))) \<and>
      manual_select_var (click_auto_crop (click_manual_select (click_auto_crop init_config))))"
proof -
  have r: "reachable_config (click_auto_crop (click_manual_select (click_auto_crop init_config)))"
    by (intro rc_auto rc_manual rc_init)
  have m: "\<not> manual_select_var init_config" by (simp add: init_config_def)
  from crop_modes_exclusive [where c = init_config, THEN conjunct2, THEN conjunct2,
      THEN conjunct1] m
  have a: "manual_select_var (click_manual_select init_config)"
    and b: "\<not> auto_crop_var (click_manual_select init_config)"
    by simp_all
  from crop_modes_exclusive [where c = "click_manual_select init_config", THEN conjunct2,
      THEN conjunct1] b
  have c: "auto_crop_var (click_auto_crop (click_manual_select init_config)) \<and>
    \<not> manual_select_var (click_auto_crop (click_manual_select init_config))"
    by simp
  from crop_modes_exclusive
      [where c = "click_auto_crop (click_manual_select (click_auto_crop init_config))",
        THEN conjunct1] r
  have "\<not> (auto_crop_var (click_auto_crop (click_manual_select (click_auto_crop init_config))) \<and>
      manual_select_var (click_auto_crop (click_manual_select (click_auto_crop init_config))))"
    by blast
  with a b c show ?thesis by blast
qed


subsection \<open>The run button\<close>

lemma on_run_one_worker: "one_worker a \<Longrightarrow> one_worker (on_run inp a)"
  by (auto simp: one_worker_def on_run_def worker_is_alive_def split: option.splits)

lemma worker_exit_one_worker: "one_worker a \<Longrightarrow> one_worker (worker_exit t a)"
  by (auto simp: one_worker_def worker_exit_def split: option.splits)

lemma reachable_one_worker: "reachable_app a \<Longrightarrow> one_worker a"
proof (induction rule: reachable_app.induct)
  case ra_init
  show ?case by (simp add: one_worker_def init_app_def)
next
  case (ra_step a b)
  from ra_step.hyps(2) ra_step.IH show ?case
    by (induction rule: app_step.induct) (simp_all add: on_run_one_worker worker_exit_one_worker)
qed

lemma one_worker_card: "one_worker a \<Longrightarrow> card (alive a) \<le> 1"
proof -
  assume "one_worker a"
  then have "alive a \<subseteq> (case worker a of None \<Rightarrow> {} | Some t \<Rightarrow> {t})"
    by (simp add: one_worker_def)
  moreover have "finite (case worker a of None \<Rightarrow> {} | Some t \<Rightarrow> {t})"
    and "card (case worker a of None \<Rightarrow> {} | Some t \<Rightarrow> {t}) \<le> 1"
    by (simp_all split: option.splits)
  ultimately show ?thesis
    by (meson card_mono order_trans)
qed

text \<open>
  C5. In every reachable state of the window at most one worker thread is alive. A run
  requested while the worker is alive shows the busy dialog and changes nothing else:
  no thread is started, and none is started when the worker ends later, so the request
  is not kept for later. A run requested with a non-empty input while no worker is
  alive starts one.
\<close>

theorem one_run_at_a_time:
  "(reachable_app a \<longrightarrow> card (alive a) \<le> 1) \<and>
   (worker_is_alive a \<longrightarrow>
      on_run input_text a = a\<lparr>dialogs := dialogs a @ [BusyInfo]\<rparr> \<and>
      alive (on_run input_text a) = alive a \<and>
      started (on_run input_text a) = started a \<and>
      started (worker_exit t (on_run input_text a)) = started a \<and>
      alive (worker_exit t (on_run input_text a)) = alive a - {t}) \<and>
   (\<not> worker_is_alive a \<and> py_strip input_text \<noteq> [] \<longrightarrow>
      started (on_run input_text a) = started a @ [py_strip input_text] \<and>
      worker_is_alive (on_run input_text a))"
  using reachable_one_worker [of a] one_worker_card [of a]
  by (auto simp: on_run_def worker_exit_def worker_is_alive_def)

theorem one_run_at_a_time_witness:
  "started (on_run ''/v/b.mp4'' (on_run ''/v/a.mp4'' init_app)) = [''/v/a.mp4''] \<and>
   dialogs (on_run ''/v/b.mp4'' (on_run ''/v/a.mp4'' init_app)) = [BusyInfo] \<and>
   alive (on_run ''/v/b.mp4'' (on_run ''/v/a.mp4'' init_app)) = {0} \<and>
   started (worker_exit 0 (on_run ''/v/b.mp4'' (on_run ''/v/a.mp4'' init_app))) = [''/v/a.mp4''] \<and>
   alive (worker_exit 0 (on_run ''/v/b.mp4'' (on_run ''/v/a.mp4'' init_app))) = {} \<and>
   card (alive (on_run ''/v/b.mp4'' (on_run ''/v/a.mp4'' init_app))) \<le> 1"
proof -
  let ?a = "on_run ''/v/a.mp4'' init_app"
  have s: "py_strip ''/v/a.mp4'' = ''/v/a.mp4''" by code_simp
  have a: "?a = \<lparr>worker = Some 0, alive = {0}, started = [''/v/a.mp4''], dialogs = [],
      run_btn_enabled = False\<rparr>"
    by (simp add: on_run_def init_app_def worker_is_alive_def s)
  then have w: "worker_is_alive ?a"
    by (simp add: worker_is_alive_def)
  from one_run_at_a_time [where a = ?a and input_text = "''/v/b.mp4''" and t = 0] w
  have b: "on_run ''/v/b.mp4'' ?a = ?a\<lparr>dialogs := dialogs ?a @ [BusyInfo]\<rparr>"
    and c: "started (worker_exit 0 (on_run ''/v/b.mp4'' ?a)) = started ?a"
    and d: "alive (worker_exit 0 (on_run ''/v/b.mp4'' ?a)) = alive ?a - {0}"
    by blast+
  have "reachable_app ?a"
    by (rule ra_step [OF ra_init step_run])
  then have "reachable_app (on_run ''/v/b.mp4'' ?a)"
    by (rule ra_step [OF _ step_run])
  with one_run_at_a_time [where a = "on_run ''/v/b.mp4'' ?a", THEN conjunct1]
  have e: "card (alive (on_run ''/v/b.mp4'' ?a)) \<le> 1"
    by blast
  have "started ?a = [''/v/a.mp4'']" and "alive ?a = {0}" and "dialogs ?a = []"
    by (simp_all add: a)
  with b c d e show ?thesis by simp
qed

end
